theory Spec2Isabelle
  imports Complex_Main "HOL-Library.Word" "HOL-Library.Log_Nat"
begin

section \<open>Arithmetic of the target: binary floating point and casts\<close>

text \<open>
  The sketches compute volume, harmonic ratio and pulse fraction in C \<open>float\<close> and
  \<open>double\<close>. A floating-point value is modelled by the rational number it denotes, and
  every floating-point operation is the exact operation followed by rounding to the
  nearest value with \<open>p\<close> significant bits, ties to even (\<open>p = 24\<close> for \<open>float\<close>,
  \<open>p = 53\<close> for \<open>double\<close>). The exponent range is not bounded: every non-zero value
  the sketches compute has a magnitude between \<open>2\<^sup>-\<^sup>1\<^sup>1\<close> and \<open>2\<^sup>2\<^sup>4\<close>, far inside
  the normal range of both formats.
\<close>

definition ilog2 :: "rat \<Rightarrow> int" where
  \<comment> \<open>the exponent \<open>e\<close> with \<open>2\<^sup>e \<le> |x| < 2\<^sup>e\<^sup>+\<^sup>1\<close>, for \<open>x \<noteq> 0\<close>\<close>
  "ilog2 x =
     (let (p, q) = quotient_of \<bar>x\<bar>; d = bitlen p - bitlen q
      in if 2 powi d \<le> \<bar>x\<bar> then d else d - 1)"

definition round_even :: "rat \<Rightarrow> int" where
  \<comment> \<open>nearest integer, ties to the even one\<close>
  "round_even y =
     (let f = \<lfloor>y\<rfloor>; d = y - of_int f
      in if d < 1 / 2 then f
         else if 1 / 2 < d then f + 1
         else if even f then f else f + 1)"

definition fp_round :: "nat \<Rightarrow> rat \<Rightarrow> rat" where
  "fp_round p x =
     (if x = 0 then 0
      else let e = ilog2 x - (int p - 1)
           in of_int (round_even (x / 2 powi e)) * 2 powi e)"

definition to_float :: "rat \<Rightarrow> rat" where
  "to_float = fp_round 24"

definition to_double :: "rat \<Rightarrow> rat" where
  "to_double = fp_round 53"

definition int_to_float :: "int \<Rightarrow> rat" where
  "int_to_float n = to_float (of_int n)"

definition float_to_int :: "rat \<Rightarrow> int" where
  \<comment> \<open>the cast \<open>(int) x\<close>: the fraction is discarded, towards zero\<close>
  "float_to_int x = (if 0 \<le> x then \<lfloor>x\<rfloor> else \<lceil>x\<rceil>)"

definition to_uint16 :: "int \<Rightarrow> int" where
  \<comment> \<open>the cast \<open>(uint16_t) x\<close>, read back as an \<open>int\<close>\<close>
  "to_uint16 x = uint (word_of_int x :: 16 word)"

section \<open>The synthesis state of the SAMD51 harmonics sketch\<close>

text \<open>
  The globals of the sketch and the timer registers it writes. \<open>int\<close> variables are
  modelled as unbounded integers: with ADC readings in \<open>0..1023\<close> and the loop index in
  \<open>0..999\<close> none of them leaves the 32-bit range. The microsecond clock is a 32-bit
  word. A register field holds the value last written to it, and 0 before the sketch
  has written it (the reset values of the registers are not used). The variables
  \<open>ULFO\<close>, \<open>ULFOvalue\<close>, \<open>time4\<close> .. \<open>time6\<close> and \<open>count3\<close> are never read by
  live code and are left out.
\<close>

record synth =
  VOL :: int
  harmonic_ratio :: rat
  VOL_harmonic :: int
  TF :: int
  TCTOPL :: int
  TCTOP :: int
  pulsefraction :: rat
  harmonic :: bool
  readHarmonicRatio :: int
  readVOL :: int
  readPulseFraction :: int
  readTF :: int
  LFO :: bool
  LFOvalue :: rat
  time1 :: "32 word"
  time2 :: "32 word"
  time3 :: "32 word"
  count :: int
  count2 :: int
  TCC1_PER :: int
  TCC1_CC0 :: int
  TCC2_PER :: int
  TCC2_CC0 :: int
  TCC2_INTFLAG_OVF :: bool
  TCC2_INTFLAG_MC0 :: bool

text \<open>What one pass of the loop body reads from the platform.\<close>

record inputs =
  micros :: "32 word"
  A3 :: int
  A4 :: int
  A2 :: int
  A0 :: int

datatype error = DivisionByZero

definition noisefilter :: int where
  "noisefilter = 20"

definition Fmin :: int where
  \<comment> \<open>the lower bound of the tone frequency named in the comment on \<open>TF\<close>\<close>
  "Fmin = 183"

definition Fmax :: int where
  \<comment> \<open>the upper bound of the tone frequency named in the comment on \<open>TF\<close>\<close>
  "Fmax = 6000000"

definition TCTOPL_init :: "int \<Rightarrow> int" where
  \<comment> \<open>the initialiser \<open>12000000L / (2 * TF) - 1\<close> of \<open>TCTOPL\<close>\<close>
  "TCTOPL_init tf = 12000000 div (2 * tf) - 1"

definition globals :: synth where
  "globals =
     \<lparr> VOL = 499,
       harmonic_ratio = to_float (15 / 100),
       VOL_harmonic = float_to_int (to_float (int_to_float 499 * to_float (15 / 100))),
       TF = 440,
       TCTOPL = TCTOPL_init 440,
       TCTOP = to_uint16 (TCTOPL_init 440),
       pulsefraction = to_float (6 / 10),
       harmonic = True,
       readHarmonicRatio = 1,
       readVOL = 1,
       readPulseFraction = 1,
       readTF = 1,
       LFO = True,
       LFOvalue = 1,
       time1 = 1,
       time2 = 1,
       time3 = 1,
       count = 0,
       count2 = 0,
       TCC1_PER = 0,
       TCC1_CC0 = 0,
       TCC2_PER = 0,
       TCC2_CC0 = 0,
       TCC2_INTFLAG_OVF = False,
       TCC2_INTFLAG_MC0 = False \<rparr>"

definition setup_sketch :: "bool \<Rightarrow> 32 word \<Rightarrow> synth \<Rightarrow> synth" where
  \<comment> \<open>the register writes of the sketch's \<open>setup()\<close>. The write \<open>TCC1->PER.reg = 499\<close>
      is the body of \<open>while (TCC1->SYNCBUSY.bit.WAVE)\<close>, which has no semicolon of its
      own: it runs only if that bit reads busy, which is \<open>wave_busy\<close>. The second argument
      is the value of \<open>micros()\<close>.\<close>
  "setup_sketch wave_busy now s =
     s\<lparr> TCC1_PER := (if wave_busy then 499 else TCC1_PER s),
        TCC1_CC0 := VOL s,
        TCC2_PER := TCTOP s,
        TCC2_CC0 := float_to_int (to_float (int_to_float (TCTOP s) * pulsefraction s)),
        time1 := now \<rparr>"

subsection \<open>Frequency and duty conversion\<close>

definition UpdateTF :: "16 word \<Rightarrow> synth \<Rightarrow> error + synth" where
  "UpdateTF newTF s =
     (if newTF = 0 then Inl DivisionByZero
      else
        let tctopl = 12000000 div uint newTF - 1;
            tctop = to_uint16 tctopl
        in Inr (s\<lparr> TCTOPL := tctopl,
                   TCTOP := tctop,
                   TCC2_PER := tctop,
                   TCC2_CC0 := float_to_int (to_float (int_to_float tctop * pulsefraction s)) \<rparr>))"

subsection \<open>The parameter control loop\<close>

definition deadband :: "int \<Rightarrow> int \<Rightarrow> int" where
  \<comment> \<open>\<open>if (abs(new - old) > noisefilter) old = new;\<close>\<close>
  "deadband new old = (if \<bar>new - old\<bar> > noisefilter then new else old)"

definition loop_lfo :: "32 word \<Rightarrow> synth \<Rightarrow> synth" where
  \<comment> \<open>the low-frequency oscillator, lines \<open>time2 = micros()\<close> to \<open>LFOvalue = ...\<close>\<close>
  "loop_lfo now s =
     (let s1 = s\<lparr> time2 := now \<rparr>;
          s2 = s1\<lparr> time3 := time2 s1 - time1 s1 \<rparr>;
          LFOtime = float_to_int (to_float (int_to_float 600000 *
                      to_float (to_double (of_int (readPulseFraction s2) / 1023))));
          s3 = (if sint (time3 s2) \<ge> LFOtime
                then s2\<lparr> LFO := \<not> LFO s2,
                         time1 := time2 s2,
                         count2 := (if count2 s2 + 1 = 5 then 0 else count2 s2 + 1) \<rparr>
                else s2)
      in s3\<lparr> LFOvalue := (if LFO s3 then 1 else 1 / 2) \<rparr>)"

definition loop_read :: "inputs \<Rightarrow> synth \<Rightarrow> synth" where
  \<comment> \<open>the four \<open>analogRead\<close> calls and their deadband filters\<close>
  "loop_read inp s =
     s\<lparr> readHarmonicRatio := deadband (A3 inp) (readHarmonicRatio s),
        readVOL := deadband (A4 inp) (readVOL s),
        readPulseFraction := deadband (A2 inp) (readPulseFraction s),
        readTF := deadband (A0 inp) (readTF s) \<rparr>"

definition loop_params :: "int \<Rightarrow> synth \<Rightarrow> synth" where
  \<comment> \<open>the assignments to \<open>harmonic_ratio\<close>, \<open>VOL\<close>, \<open>VOL_harmonic\<close>, \<open>TF\<close>, \<open>pulsefraction\<close>\<close>
  "loop_params i s =
     (let s1 = s\<lparr> harmonic_ratio :=
                   to_float (to_double (to_double (of_int (readHarmonicRatio s) / 1023) *
                                        to_double (of_int (count2 s) / 4))) \<rparr>;
          s2 = s1\<lparr> VOL :=
                   float_to_int (to_double (to_float (to_double (of_int (readVOL s1) / 1023)) *
                                            to_double (499 - of_int (i div 2 - 1)))) \<rparr>;
          s3 = s2\<lparr> VOL_harmonic :=
                   float_to_int (to_float (int_to_float (VOL s2) * harmonic_ratio s2)) \<rparr>;
          s4 = s3\<lparr> TF := readTF s3 + 120 * count s3 + i * 6 \<rparr>
      in s4\<lparr> pulsefraction :=
               to_float (to_double (to_double (of_int (readPulseFraction s4) / 1023) *
                                    LFOvalue s4)) \<rparr>)"

definition loop_body :: "int \<Rightarrow> inputs \<Rightarrow> synth \<Rightarrow> error + synth" where
  \<comment> \<open>one pass of the \<open>for\<close> loop in \<open>loop()\<close>, with loop index \<open>i\<close>\<close>
  "loop_body i inp s =
     (let s' = loop_params i (loop_read inp (loop_lfo (micros inp) s))
      in UpdateTF (word_of_int (TF s')) s')"

subsection \<open>The timer event handlers\<close>

definition TCC2_0_Handler :: "synth \<Rightarrow> synth" where
  "TCC2_0_Handler s =
     (if TCC2_INTFLAG_OVF s
      then let s1 = s\<lparr> TCC2_INTFLAG_OVF := False \<rparr>
           in if harmonic s1
              then s1\<lparr> TCC1_CC0 := VOL_harmonic s1, harmonic := \<not> harmonic s1 \<rparr>
              else s1\<lparr> TCC1_CC0 := VOL s1, harmonic := \<not> harmonic s1 \<rparr>
      else s)"

definition TCC2_1_Handler :: "synth \<Rightarrow> synth" where
  "TCC2_1_Handler s =
     (if TCC2_INTFLAG_MC0 s
      then s\<lparr> TCC2_INTFLAG_MC0 := False, TCC1_CC0 := 0 \<rparr>
      else s)"

definition overflow_event :: "synth \<Rightarrow> synth" where
  \<comment> \<open>the timer reaches its period: the hardware raises OVF and the handler runs\<close>
  "overflow_event s = TCC2_0_Handler (s\<lparr> TCC2_INTFLAG_OVF := True \<rparr>)"

definition compare_event :: "synth \<Rightarrow> synth" where
  \<comment> \<open>the timer reaches its compare value: the hardware raises MC0 and the handler runs\<close>
  "compare_event s = TCC2_1_Handler (s\<lparr> TCC2_INTFLAG_MC0 := True \<rparr>)"

datatype phase = Fundamental | Harmonic

definition phase_of :: "synth \<Rightarrow> phase" where
  \<comment> \<open>the flag \<open>harmonic\<close> is set while the next overflow is to start the harmonic pulse\<close>
  "phase_of s = (if harmonic s then Fundamental else Harmonic)"

subsection \<open>The tone handler of the ESP32 sketch\<close>

text \<open>
  The ESP32 variant has one timer alarm per half wave: the handler writes \<open>amp\<close> or 0
  to the DAC and flips \<open>up\<close>. \<open>DAC1\<close> holds the value last written; \<open>amp\<close> stays
  within the 8 bits of the DAC.
\<close>

record esp32 =
  amp :: int
  up :: bool
  DAC1 :: int

definition onTimerSW :: "esp32 \<Rightarrow> esp32" where
  "onTimerSW s =
     (let s1 = (if up s then s\<lparr> DAC1 := amp s \<rparr> else s\<lparr> DAC1 := 0 \<rparr>)
      in s1\<lparr> up := \<not> up s1 \<rparr>)"

subsection \<open>Ranges of the inputs and two reference states\<close>

text \<open>
  \<open>analogRead\<close> returns a 10-bit sample; the sketch divides by 1023, the full scale.
  \<open>state_ok\<close> holds at start-up and after every pass of the loop body whose inputs
  are in range. \<open>third_toggle\<close> has the variables read by a pass of the loop as
  they are after the third toggle of the low-frequency oscillator, two seconds after
  start-up, with all four inputs at full scale; \<open>full_scale\<close> is the input of the
  next pass, 2 ms later.
\<close>

definition adc :: "int \<Rightarrow> bool" where
  "adc x \<longleftrightarrow> 0 \<le> x \<and> x \<le> 1023"

definition inputs_ok :: "inputs \<Rightarrow> bool" where
  "inputs_ok inp \<longleftrightarrow> adc (A3 inp) \<and> adc (A4 inp) \<and> adc (A2 inp) \<and> adc (A0 inp)"

definition state_ok :: "synth \<Rightarrow> bool" where
  "state_ok s \<longleftrightarrow>
     adc (readHarmonicRatio s) \<and> adc (readVOL s) \<and> adc (readPulseFraction s) \<and> adc (readTF s)
     \<and> 0 \<le> count2 s \<and> count2 s \<le> 4"

definition full_scale :: inputs where
  "full_scale = \<lparr> micros = 2002000, A3 = 1023, A4 = 1023, A2 = 1023, A0 = 1023 \<rparr>"

definition third_toggle :: synth where
  "third_toggle =
     (setup_sketch True 1000 globals)
       \<lparr> readHarmonicRatio := 1023, readVOL := 1023, readPulseFraction := 1023,
         readTF := 1023, LFO := False, LFOvalue := 1 / 2, time1 := 2000000, count2 := 3 \<rparr>"

section \<open>Rounding to a binary floating-point format\<close>

lemma powi_strict_mono: "a < b \<Longrightarrow> (2::rat) powi a < 2 powi b"
  by (simp add: power_int_strict_increasing)

lemma powi_mono: "a \<le> b \<Longrightarrow> (2::rat) powi a \<le> 2 powi b"
  by (simp add: power_int_increasing)

lemma ilog2_bounds:
  assumes "x \<noteq> 0"
  shows "2 powi ilog2 x \<le> \<bar>x\<bar> \<and> \<bar>x\<bar> < 2 powi (ilog2 x + 1)"
proof -
  obtain p q where pq: "quotient_of \<bar>x\<bar> = (p, q)" by force
  have q: "0 < q" using quotient_of_denom_pos [OF pq] .
  have x: "\<bar>x\<bar> = of_int p / of_int q" using quotient_of_div [OF pq] .
  have xpos: "0 < \<bar>x\<bar>" using assms by simp
  have p: "0 < p"
  proof (rule ccontr)
    assume "\<not> 0 < p"
    then have "of_int p / (of_int q :: rat) \<le> 0" using q by (simp add: divide_le_0_iff)
    with x xpos show False by simp
  qed
  define bp where "bp = bitlen p"
  define bq where "bq = bitlen q"
  have bp1: "1 \<le> bp" using p bitlen_eq_zero_iff [of p] bitlen_nonneg [of p] by (simp add: bp_def)
  have bq1: "1 \<le> bq" using q bitlen_eq_zero_iff [of q] bitlen_nonneg [of q] by (simp add: bq_def)
  have pb: "2 ^ nat (bp - 1) \<le> p" "p < 2 ^ nat bp" using bitlen_bounds [OF p] by (simp_all add: bp_def)
  have qb: "2 ^ nat (bq - 1) \<le> q" "q < 2 ^ nat bq" using bitlen_bounds [OF q] by (simp_all add: bq_def)
  have pr: "(2::rat) powi (bp - 1) \<le> of_int p" "(of_int p :: rat) < 2 powi bp"
  proof -
    have "(of_int (2 ^ nat (bp - 1)) :: rat) \<le> of_int p" using pb(1) by (simp only: of_int_le_iff)
    then show "(2::rat) powi (bp - 1) \<le> of_int p" using bp1 by (simp add: power_int_def)
    have "(of_int p :: rat) < of_int (2 ^ nat bp)" using pb(2) by (simp only: of_int_less_iff)
    then show "(of_int p :: rat) < 2 powi bp" using bp1 by (simp add: power_int_def)
  qed
  have qr: "(2::rat) powi (bq - 1) \<le> of_int q" "(of_int q :: rat) < 2 powi bq"
  proof -
    have "(of_int (2 ^ nat (bq - 1)) :: rat) \<le> of_int q" using qb(1) by (simp only: of_int_le_iff)
    then show "(2::rat) powi (bq - 1) \<le> of_int q" using bq1 by (simp add: power_int_def)
    have "(of_int q :: rat) < of_int (2 ^ nat bq)" using qb(2) by (simp only: of_int_less_iff)
    then show "(of_int q :: rat) < 2 powi bq" using bq1 by (simp add: power_int_def)
  qed
  have qpos: "(0::rat) < of_int q" using q by simp
  have upper: "\<bar>x\<bar> < 2 powi (bp - bq + 1)"
  proof -
    have "of_int p < (2::rat) powi (bp - bq + 1) * 2 powi (bq - 1)"
      using pr(2) by (simp add: power_int_add [symmetric])
    also have "\<dots> \<le> 2 powi (bp - bq + 1) * of_int q"
      using qr(1) by (simp add: mult_left_mono)
    finally show ?thesis using qpos by (simp add: x pos_divide_less_eq)
  qed
  have lower: "2 powi (bp - bq - 1) < \<bar>x\<bar>"
  proof -
    have "(2::rat) powi (bp - bq - 1) * of_int q < 2 powi (bp - bq - 1) * 2 powi bq"
      using qr(2) by (simp add: mult_strict_left_mono)
    also have "\<dots> = 2 powi (bp - 1)" by (simp add: power_int_add [symmetric])
    also have "\<dots> \<le> of_int p" using pr(1) .
    finally show ?thesis using qpos by (simp add: x pos_less_divide_eq)
  qed
  show ?thesis
  proof (cases "2 powi (bp - bq) \<le> \<bar>x\<bar>")
    case True
    then have "ilog2 x = bp - bq" by (simp add: ilog2_def pq bp_def bq_def)
    then show ?thesis using True upper by simp
  next
    case False
    then have "ilog2 x = bp - bq - 1" by (simp add: ilog2_def pq bp_def bq_def)
    then show ?thesis using False lower by simp
  qed
qed

lemma ilog2_unique:
  assumes "2 powi e \<le> \<bar>x\<bar>" and "\<bar>x\<bar> < 2 powi (e + 1)"
  shows "ilog2 x = e"
proof -
  have x: "x \<noteq> 0"
  proof
    assume "x = 0"
    with assms(1) have "(2::rat) powi e \<le> 0" by simp
    moreover have "(0::rat) < 2 powi e" by simp
    ultimately show False by linarith
  qed
  note b = ilog2_bounds [OF x]
  have "\<not> ilog2 x < e"
  proof
    assume "ilog2 x < e"
    then have "(2::rat) powi (ilog2 x + 1) \<le> 2 powi e" by (intro powi_mono) simp
    with b assms(1) show False by simp
  qed
  moreover have "\<not> e < ilog2 x"
  proof
    assume "e < ilog2 x"
    then have "(2::rat) powi (e + 1) \<le> 2 powi ilog2 x" by (intro powi_mono) simp
    with b assms(2) show False by simp
  qed
  ultimately show ?thesis by simp
qed

lemma ilog2_scale: "x \<noteq> 0 \<Longrightarrow> ilog2 (x * 2 powi k) = ilog2 x + k"
proof (rule ilog2_unique)
  assume x: "x \<noteq> 0"
  note b = ilog2_bounds [OF x]
  have pos: "(0::rat) < 2 powi k" by simp
  have abs: "\<bar>x * 2 powi k\<bar> = \<bar>x\<bar> * 2 powi k" by (simp add: abs_mult)
  show "2 powi (ilog2 x + k) \<le> \<bar>x * 2 powi k\<bar>"
    using b pos by (simp add: abs power_int_add mult_right_mono)
  have "\<bar>x\<bar> * 2 powi k < 2 powi (ilog2 x + 1) * 2 powi k"
    using b pos by (simp add: mult_strict_right_mono)
  then show "\<bar>x * 2 powi k\<bar> < 2 powi (ilog2 x + k + 1)"
    by (simp add: abs power_int_add mult.commute mult.left_commute)
qed

lemma fp_round_scale: "fp_round p (x * 2 powi k) = fp_round p x * 2 powi k"
proof (cases "x = 0")
  case True
  then show ?thesis by (simp add: fp_round_def)
next
  case False
  have nz: "x * 2 powi k \<noteq> 0" using False by simp
  have "x * 2 powi k / 2 powi (ilog2 x + k - (int p - 1)) = x / 2 powi (ilog2 x - (int p - 1))"
    by (simp add: power_int_add power_int_diff field_simps)
  then show ?thesis
    using False nz
    by (simp add: fp_round_def ilog2_scale Let_def power_int_add power_int_diff field_simps)
qed

lemma fp_round_half: "fp_round p (x * (1 / 2)) = fp_round p x / 2"
  using fp_round_scale [of p x "-1"] by (simp add: power_int_minus)

lemma round_even_of_int [simp]: "round_even (of_int n) = n"
  by (simp add: round_even_def)

lemma round_even_bounds: "\<lfloor>y\<rfloor> \<le> round_even y \<and> round_even y \<le> \<lfloor>y\<rfloor> + 1"
  by (simp add: round_even_def Let_def)

lemma round_even_mono:
  assumes "x \<le> y"
  shows "round_even x \<le> round_even y"
proof (cases "\<lfloor>x\<rfloor> = \<lfloor>y\<rfloor>")
  case True
  have "x - of_int \<lfloor>x\<rfloor> \<le> y - of_int \<lfloor>y\<rfloor>" using assms True by simp
  then show ?thesis using True by (auto simp: round_even_def Let_def)
next
  case False
  have "\<lfloor>x\<rfloor> \<le> \<lfloor>y\<rfloor>" using assms by (rule floor_mono)
  with False have "\<lfloor>x\<rfloor> + 1 \<le> \<lfloor>y\<rfloor>" by simp
  then show ?thesis using round_even_bounds [of x] round_even_bounds [of y] by linarith
qed

lemma fp_round_nz:
  "x \<noteq> 0 \<Longrightarrow>
   fp_round p x = of_int (round_even (x / 2 powi (ilog2 x - (int p - 1)))) *
                  2 powi (ilog2 x - (int p - 1))"
  by (simp add: fp_round_def Let_def)

lemma fp_round_of_int:
  assumes "\<bar>m\<bar> < 2 ^ p"
  shows "fp_round p (of_int m) = of_int m"
proof (cases "m = 0")
  case True
  then show ?thesis by (simp add: fp_round_def)
next
  case False
  then have nz: "(of_int m :: rat) \<noteq> 0" by simp
  define e where "e = ilog2 (of_int m)"
  note b = ilog2_bounds [OF nz, folded e_def]
  have "(of_int \<bar>m\<bar> :: rat) < of_int (2 ^ p)" using assms by (simp only: of_int_less_iff)
  then have "\<bar>of_int m :: rat\<bar> < 2 powi int p" by simp
  with b have "(2::rat) powi e < 2 powi int p" by linarith
  have ep: "e < int p"
  proof (rule ccontr)
    assume "\<not> e < int p"
    then have "(2::rat) powi int p \<le> 2 powi e" by (intro powi_mono) simp
    with \<open>(2::rat) powi e < 2 powi int p\<close> show False by simp
  qed
  define n where "n = nat (int p - 1 - e)"
  have E: "e - (int p - 1) = - int n" using ep by (simp add: n_def)
  have "of_int m / (2::rat) powi (- int n) = of_int (m * 2 ^ n)"
    by (simp add: power_int_minus divide_inverse)
  then have "fp_round p (of_int m) = of_int (m * 2 ^ n) * 2 powi (- int n)"
    using nz by (simp add: fp_round_nz e_def [symmetric] E del: of_int_mult of_int_power)
  also have "\<dots> = of_int m" by (simp add: power_int_minus)
  finally show ?thesis .
qed

lemma fp_round_exact:
  "\<bar>m\<bar> < 2 ^ p \<Longrightarrow> fp_round p (of_int m * 2 powi k) = of_int m * 2 powi k"
  by (simp add: fp_round_scale fp_round_of_int)

lemma fp_round_binade:
  assumes "0 < x" and "0 < p"
  shows "2 powi ilog2 x \<le> fp_round p x \<and> fp_round p x \<le> 2 powi (ilog2 x + 1)"
proof -
  have nz: "x \<noteq> 0" using assms by simp
  define e where "e = ilog2 x"
  define E where "E = e - (int p - 1)"
  note b = ilog2_bounds [OF nz, folded e_def]
  have pos: "(0::rat) < 2 powi E" by simp
  have r: "fp_round p x = of_int (round_even (x / 2 powi E)) * 2 powi E"
    using nz by (simp add: fp_round_nz e_def E_def)
  have p1: "int p - 1 = int (p - 1)" using assms by simp
  have lo: "(2::rat) powi e = of_int (2 ^ (p - 1)) * 2 powi E"
    by (simp add: E_def power_int_diff power_int_add p1)
  have hi: "(2::rat) powi (e + 1) = of_int (2 ^ p) * 2 powi E"
  proof -
    have "e + 1 = int p + E" by (simp add: E_def)
    then show ?thesis by (simp add: power_int_add)
  qed
  have "of_int (2 ^ (p - 1)) \<le> x / 2 powi E"
    using b assms pos by (simp add: lo pos_le_divide_eq del: of_int_power)
  then have "round_even (of_int (2 ^ (p - 1))) \<le> round_even (x / 2 powi E)"
    by (rule round_even_mono)
  then have "(of_int (2 ^ (p - 1)) :: rat) \<le> of_int (round_even (x / 2 powi E))"
    by (simp only: round_even_of_int of_int_le_iff)
  then have l: "2 powi e \<le> fp_round p x"
    unfolding lo r using pos by (intro mult_right_mono) simp_all
  have "x / 2 powi E \<le> of_int (2 ^ p)"
    using b assms pos by (simp add: hi pos_divide_le_eq del: of_int_power)
  then have "round_even (x / 2 powi E) \<le> round_even (of_int (2 ^ p))"
    by (rule round_even_mono)
  then have "(of_int (round_even (x / 2 powi E)) :: rat) \<le> of_int (2 ^ p)"
    by (simp only: round_even_of_int of_int_le_iff)
  then have h: "fp_round p x \<le> 2 powi (e + 1)"
    unfolding hi r using pos by (intro mult_right_mono) simp_all
  show ?thesis using l h by (simp add: e_def)
qed

lemma fp_round_mono:
  assumes "0 \<le> x" and "x \<le> y" and "0 < p"
  shows "fp_round p x \<le> fp_round p y"
proof (cases "x = 0")
  case True
  show ?thesis
  proof (cases "y = 0")
    case True
    with \<open>x = 0\<close> show ?thesis by simp
  next
    case False
    with assms have "0 < y" by simp
    from fp_round_binade [OF this \<open>0 < p\<close>] have "0 \<le> fp_round p y"
      by (meson le_less_trans less_imp_le zero_less_power_int zero_less_numeral order_trans)
    with True show ?thesis by (simp add: fp_round_def)
  qed
next
  case False
  with assms have x: "0 < x" and y: "0 < y" by simp_all
  have nx: "x \<noteq> 0" and ny: "y \<noteq> 0" using x y by simp_all
  note bx = ilog2_bounds [OF nx] and by' = ilog2_bounds [OF ny]
  have le: "ilog2 x \<le> ilog2 y"
  proof (rule ccontr)
    assume "\<not> ilog2 x \<le> ilog2 y"
    then have "(2::rat) powi (ilog2 y + 1) \<le> 2 powi ilog2 x" by (intro powi_mono) simp
    with bx by' x y assms(2) show False by simp
  qed
  show ?thesis
  proof (cases "ilog2 x = ilog2 y")
    case True
    define E where "E = ilog2 y - (int p - 1)"
    have pos: "(0::rat) < 2 powi E" by simp
    have "x / 2 powi E \<le> y / 2 powi E" using assms(2) pos by (simp add: divide_right_mono)
    then have "round_even (x / 2 powi E) \<le> round_even (y / 2 powi E)" by (rule round_even_mono)
    then have "(of_int (round_even (x / 2 powi E)) :: rat) * 2 powi E
                 \<le> of_int (round_even (y / 2 powi E)) * 2 powi E"
      using pos by (intro mult_right_mono) simp_all
    then show ?thesis using nx ny True by (simp add: fp_round_nz E_def)
  next
    case False
    with le have "ilog2 x + 1 \<le> ilog2 y" by simp
    then have "(2::rat) powi (ilog2 x + 1) \<le> 2 powi ilog2 y" by (rule powi_mono)
    with fp_round_binade [OF x \<open>0 < p\<close>] fp_round_binade [OF y \<open>0 < p\<close>]
    show ?thesis by linarith
  qed
qed


section \<open>The deadband filter\<close>

lemma deadband_keep: "\<bar>new - old\<bar> \<le> noisefilter \<Longrightarrow> deadband new old = old"
  by (simp add: deadband_def)

lemma deadband_take: "noisefilter < \<bar>new - old\<bar> \<Longrightarrow> deadband new old = new"
  by (simp add: deadband_def)

lemma deadband_run_keep:
  "\<forall>x \<in> set xs. \<bar>x - old\<bar> \<le> noisefilter \<Longrightarrow> foldl (\<lambda>f x. deadband x f) old xs = old"
  by (induction xs) (simp_all add: deadband_keep)

text \<open>
  C7. Each of the four channels of the loop keeps its filtered copy unless the new sample
  differs from it by strictly more than \<open>noisefilter = 20\<close>: the copy is replaced exactly
  when the sample is a different value more than 20 away; a sample exactly 20 away leaves
  it, a sample 21 away replaces it, and a run of samples each within 20 of the retained
  value never changes it.
\<close>

theorem deadband_filter:
  "readHarmonicRatio (loop_read inp s) = deadband (A3 inp) (readHarmonicRatio s)
   \<and> readVOL (loop_read inp s) = deadband (A4 inp) (readVOL s)
   \<and> readPulseFraction (loop_read inp s) = deadband (A2 inp) (readPulseFraction s)
   \<and> readTF (loop_read inp s) = deadband (A0 inp) (readTF s)
   \<and> (deadband new old \<noteq> old \<longleftrightarrow> \<bar>new - old\<bar> > 20)
   \<and> (\<bar>new - old\<bar> > 20 \<longrightarrow> deadband new old = new)
   \<and> deadband (old + 20) old = old \<and> deadband (old - 20) old = old
   \<and> deadband (old + 21) old = old + 21 \<and> deadband (old - 21) old = old - 21
   \<and> ((\<forall>x \<in> set xs. \<bar>x - old\<bar> \<le> 20) \<longrightarrow> foldl (\<lambda>f x. deadband x f) old xs = old)"
proof -
  have run: "(\<forall>x \<in> set xs. \<bar>x - old\<bar> \<le> 20) \<longrightarrow> foldl (\<lambda>f x. deadband x f) old xs = old"
    using deadband_run_keep [of xs old] by (simp add: noisefilter_def)
  have iff: "deadband new old \<noteq> old \<longleftrightarrow> \<bar>new - old\<bar> > 20"
    by (auto simp: deadband_def noisefilter_def)
  show ?thesis
    using run iff by (simp add: loop_read_def deadband_def noisefilter_def)
qed

theorem deadband_filter_witness:
  "deadband 541 520 = 541 \<and> deadband 540 520 = 520
   \<and> foldl (\<lambda>f x. deadband x f) 520 [500, 540, 519, 533] = 520"
  using deadband_filter [of "\<lparr> micros = 0, A3 = 0, A4 = 0, A2 = 0, A0 = 0 \<rparr>" globals 541 520
                              "[500, 540, 519, 533]"]
  by (simp add: deadband_def noisefilter_def)

section \<open>Frequency to period ticks\<close>

lemma to_uint16_mod: "to_uint16 x = x mod 65536"
  by (simp add: to_uint16_def uint_word_of_int)

lemma to_uint16_id: "0 \<le> x \<Longrightarrow> x < 65536 \<Longrightarrow> to_uint16 x = x"
  by (simp add: to_uint16_mod)

lemma UpdateTF_Inr:
  "newTF \<noteq> 0 \<Longrightarrow>
   UpdateTF newTF s =
     Inr (s\<lparr> TCTOPL := 12000000 div uint newTF - 1,
              TCTOP := to_uint16 (12000000 div uint newTF - 1),
              TCC2_PER := to_uint16 (12000000 div uint newTF - 1),
              TCC2_CC0 := float_to_int (to_float
                 (int_to_float (to_uint16 (12000000 div uint newTF - 1)) * pulsefraction s)) \<rparr>)"
  by (simp add: UpdateTF_def Let_def)

lemma UpdateTF_Inl: "UpdateTF 0 s = Inl DivisionByZero"
  by (simp add: UpdateTF_def)

lemma uint16_bounds: "0 \<le> uint (w :: 16 word) \<and> uint w \<le> 65535"
  using uint_lt2p [of w] by simp

lemma ticks_in_range:
  assumes "184 \<le> uint (newTF :: 16 word)"
  shows "0 \<le> 12000000 div uint newTF - 1 \<and> 12000000 div uint newTF - 1 < 65536"
proof -
  have "12000000 div uint newTF \<le> 12000000 div 184"
    using assms by (intro zdiv_mono2) simp_all
  moreover have "12000000 div 65535 \<le> 12000000 div uint newTF"
    using assms uint16_bounds [of newTF] by (intro zdiv_mono2) simp_all
  ultimately show ?thesis by simp
qed

text \<open>
  C1 (amended). When the tone frequency changes, \<open>UpdateTF\<close> computes the period as
  \<open>12000000 / newTF - 1\<close>, without the factor 2: for every \<open>newTF\<close> from 184 to
  65535 that value fits the 16-bit cast and is what reaches \<open>TCC2->PER\<close>; for 440 it
  is 27271. The value \<open>12000000 / (2 * 440) - 1 = 13635\<close> is the initialiser of
  \<open>TCTOPL\<close>, which \<open>setup()\<close> writes to the period register once at start-up.
\<close>

theorem UpdateTF_period:
  "(184 \<le> uint newTF \<longrightarrow>
      map_sum id TCC2_PER (UpdateTF newTF s) = Inr (12000000 div uint newTF - 1)
      \<and> map_sum id TCTOPL (UpdateTF newTF s) = Inr (12000000 div uint newTF - 1))
   \<and> map_sum id TCC2_PER (UpdateTF 440 s) = Inr 27271
   \<and> TCC2_PER (setup_sketch busy now globals) = TCTOPL_init 440
   \<and> TCTOPL_init 440 = 13635"
proof -
  have a: "184 \<le> uint newTF \<longrightarrow>
      map_sum id TCC2_PER (UpdateTF newTF s) = Inr (12000000 div uint newTF - 1)
      \<and> map_sum id TCTOPL (UpdateTF newTF s) = Inr (12000000 div uint newTF - 1)"
  proof
    assume h: "184 \<le> uint newTF"
    then have nz: "newTF \<noteq> 0" by auto
    show "map_sum id TCC2_PER (UpdateTF newTF s) = Inr (12000000 div uint newTF - 1)
      \<and> map_sum id TCTOPL (UpdateTF newTF s) = Inr (12000000 div uint newTF - 1)"
      using ticks_in_range [OF h] by (simp add: UpdateTF_Inr [OF nz] to_uint16_id)
  qed
  have b: "map_sum id TCC2_PER (UpdateTF 440 s) = Inr 27271"
    by (simp add: UpdateTF_Inr to_uint16_mod)
  have c: "TCTOPL_init 440 = 13635" by (simp add: TCTOPL_init_def)
  have d: "TCC2_PER (setup_sketch busy now globals) = TCTOPL_init 440"
    by (simp add: setup_sketch_def globals_def c to_uint16_mod)
  show ?thesis using a b c d by simp
qed

theorem UpdateTF_period_witness:
  "(184::int) \<le> uint (880 :: 16 word)
   \<and> map_sum id TCC2_PER (UpdateTF 880 globals) = Inr 13635"
  using UpdateTF_period [where newTF = 880 and s = globals] by simp

text \<open>
  The claim as stated fails: called with 440, \<open>UpdateTF\<close> programs 27271, not
  \<open>12000000 / (2 * 440) - 1\<close>.
\<close>

theorem UpdateTF_period_counterexample:
  "map_sum id TCC2_PER (UpdateTF 440 (setup_sketch True 0 globals)) = Inr 27271
   \<and> map_sum id TCC2_PER (UpdateTF 440 (setup_sketch True 0 globals))
       \<noteq> Inr (12000000 div (2 * 440) - 1)"
  by (simp add: UpdateTF_Inr to_uint16_mod)

text \<open>
  C10. A tone frequency so low that \<open>12000000 / newTF - 1\<close> exceeds 65535 (that is,
  \<open>newTF\<close> from 1 to 183) is neither rejected nor clamped: \<open>UpdateTF\<close> returns
  normally, \<open>TCTOPL\<close> holds the full tick count, and the \<open>uint16_t\<close> cast reduces
  it modulo \<open>2\<^sup>1\<^sup>6\<close>; that wrapped value, different from the tick count, is written
  to the period register of the modulation timer.
\<close>

theorem UpdateTF_wraps:
  "newTF \<noteq> 0 \<Longrightarrow> 65535 < 12000000 div uint newTF - 1 \<Longrightarrow>
   map_sum id TCC2_PER (UpdateTF newTF s) = Inr ((12000000 div uint newTF - 1) mod 2 ^ 16)
   \<and> map_sum id TCTOP (UpdateTF newTF s) = Inr ((12000000 div uint newTF - 1) mod 2 ^ 16)
   \<and> map_sum id TCTOPL (UpdateTF newTF s) = Inr (12000000 div uint newTF - 1)
   \<and> map_sum id TCC2_PER (UpdateTF newTF s) \<noteq> Inr (12000000 div uint newTF - 1)
   \<and> uint newTF \<le> 183"
proof -
  assume nz: "newTF \<noteq> 0" and big: "65535 < 12000000 div uint newTF - 1"
  define t where "t = 12000000 div uint newTF - 1"
  have m: "t mod 65536 < 65536" by simp
  have ne: "t mod 65536 \<noteq> t" using big m unfolding t_def by linarith
  have u: "uint newTF \<le> 183"
  proof (rule ccontr)
    assume "\<not> uint newTF \<le> 183"
    then have "184 \<le> uint newTF" by simp
    from ticks_in_range [OF this] big show False by simp
  qed
  show ?thesis
    using ne u by (simp add: UpdateTF_Inr [OF nz] to_uint16_mod t_def [symmetric])
qed

theorem UpdateTF_wraps_witness:
  "(100 :: 16 word) \<noteq> 0 \<and> (65535::int) < 12000000 div uint (100 :: 16 word) - 1
   \<and> map_sum id TCC2_PER (UpdateTF 100 globals) = Inr 54463
   \<and> map_sum id TCTOPL (UpdateTF 100 globals) = Inr 119999"
  using UpdateTF_wraps [of 100 globals] by simp

section \<open>The loop body and the registers\<close>

lemma word16_of_int_eq_0: "(word_of_int k :: 16 word) = 0 \<longleftrightarrow> k mod 65536 = 0"
proof -
  have "(word_of_int k :: 16 word) = 0 \<longleftrightarrow> uint (word_of_int k :: 16 word) = 0"
    by (simp add: uint_0_iff)
  then show ?thesis by (simp add: uint_word_of_int)
qed

lemma uint_word16_of_int: "uint (word_of_int k :: 16 word) = k mod 65536"
  by (simp add: uint_word_of_int)

lemma loop_lfo_frame:
  "TCC1_CC0 (loop_lfo now s) = TCC1_CC0 s"
  "harmonic (loop_lfo now s) = harmonic s"
  "readTF (loop_lfo now s) = readTF s"
  "readVOL (loop_lfo now s) = readVOL s"
  "readHarmonicRatio (loop_lfo now s) = readHarmonicRatio s"
  "readPulseFraction (loop_lfo now s) = readPulseFraction s"
  "count (loop_lfo now s) = count s"
  by (simp_all add: loop_lfo_def Let_def)

lemma loop_read_frame:
  "TCC1_CC0 (loop_read inp s) = TCC1_CC0 s"
  "harmonic (loop_read inp s) = harmonic s"
  "count (loop_read inp s) = count s"
  "count2 (loop_read inp s) = count2 s"
  "LFOvalue (loop_read inp s) = LFOvalue s"
  by (simp_all add: loop_read_def)

lemma loop_read_fields:
  "readHarmonicRatio (loop_read inp s) = deadband (A3 inp) (readHarmonicRatio s)"
  "readVOL (loop_read inp s) = deadband (A4 inp) (readVOL s)"
  "readPulseFraction (loop_read inp s) = deadband (A2 inp) (readPulseFraction s)"
  "readTF (loop_read inp s) = deadband (A0 inp) (readTF s)"
  by (simp_all add: loop_read_def)

lemma loop_params_frame:
  "TCC1_CC0 (loop_params i s) = TCC1_CC0 s"
  "harmonic (loop_params i s) = harmonic s"
  by (simp_all add: loop_params_def Let_def)

lemma loop_params_fields:
  "TF (loop_params i s) = readTF s + 120 * count s + i * 6"
  "harmonic_ratio (loop_params i s) =
     to_float (to_double (to_double (of_int (readHarmonicRatio s) / 1023) *
                          to_double (of_int (count2 s) / 4)))"
  "VOL (loop_params i s) =
     float_to_int (to_double (to_float (to_double (of_int (readVOL s) / 1023)) *
                              to_double (499 - of_int (i div 2 - 1))))"
  "VOL_harmonic (loop_params i s) =
     float_to_int (to_float (int_to_float (VOL (loop_params i s)) *
                             harmonic_ratio (loop_params i s)))"
  "pulsefraction (loop_params i s) =
     to_float (to_double (to_double (of_int (readPulseFraction s) / 1023) * LFOvalue s))"
  by (simp_all add: loop_params_def Let_def)

lemma UpdateTF_frame:
  assumes "UpdateTF newTF s = Inr s'"
  shows "TCC1_CC0 s' = TCC1_CC0 s" "harmonic s' = harmonic s" "TF s' = TF s"
    "VOL s' = VOL s" "VOL_harmonic s' = VOL_harmonic s" "harmonic_ratio s' = harmonic_ratio s"
    "pulsefraction s' = pulsefraction s"
  using assms by (auto simp: UpdateTF_def Let_def split: if_splits)

lemma UpdateTF_regs:
  assumes "UpdateTF newTF s = Inr s'"
  shows "newTF \<noteq> 0"
    "TCC2_PER s' = to_uint16 (12000000 div uint newTF - 1)"
    "TCC2_CC0 s' = float_to_int (to_float (int_to_float (TCC2_PER s') * pulsefraction s))"
  using assms by (auto simp: UpdateTF_def Let_def split: if_splits)

lemma loop_body_unfold:
  "loop_body i inp s =
     UpdateTF (word_of_int (TF (loop_params i (loop_read inp (loop_lfo (micros inp) s)))))
              (loop_params i (loop_read inp (loop_lfo (micros inp) s)))"
  by (simp add: loop_body_def Let_def)

lemma loop_body_TF:
  "TF (loop_params i (loop_read inp (loop_lfo (micros inp) s))) =
     deadband (A0 inp) (readTF s) + 120 * count s + i * 6"
  by (simp add: loop_params_fields loop_read_fields loop_read_frame loop_lfo_frame)

lemma UpdateTF_total: "newTF \<noteq> 0 \<Longrightarrow> \<exists>s'. UpdateTF newTF s = Inr s'"
  by (simp add: UpdateTF_def Let_def)

lemma loop_body_total:
  "(deadband (A0 inp) (readTF s) + 120 * count s + i * 6) mod 65536 \<noteq> 0 \<Longrightarrow>
   \<exists>s'. loop_body i inp s = Inr s'"
  unfolding loop_body_unfold
  by (rule UpdateTF_total) (simp only: word16_of_int_eq_0 loop_body_TF not_False_eq_True)

text \<open>
  C2 (amended). The loop does not clamp the tone frequency. A pass of the loop body that
  reaches the end of \<open>UpdateTF\<close> has set \<open>TF = readTF + 120 * count + i * 6\<close> from
  the filtered reading as it is, and the period register holds the tick count of that
  value, cut to 16 bits twice: \<open>(12000000 / (TF mod 2\<^sup>1\<^sup>6) - 1) mod 2\<^sup>1\<^sup>6\<close>.
\<close>

theorem loop_body_no_clamp:
  assumes "loop_body i inp s = Inr s'"
  shows "TF s' = deadband (A0 inp) (readTF s) + 120 * count s + i * 6
         \<and> TCC2_PER s' = (12000000 div (TF s' mod 2 ^ 16) - 1) mod 2 ^ 16"
proof -
  let ?pre = "loop_params i (loop_read inp (loop_lfo (micros inp) s))"
  have u: "UpdateTF (word_of_int (TF ?pre)) ?pre = Inr s'"
    using assms by (simp add: loop_body_unfold)
  have tf: "TF s' = TF ?pre" using UpdateTF_frame(3) [OF u] .
  have "TCC2_PER s' = to_uint16 (12000000 div uint (word_of_int (TF ?pre) :: 16 word) - 1)"
    using UpdateTF_regs(2) [OF u] .
  then have "TCC2_PER s' = (12000000 div (TF s' mod 2 ^ 16) - 1) mod 2 ^ 16"
    by (simp only: tf uint_word16_of_int to_uint16_mod) simp
  then show ?thesis using tf by (simp add: loop_body_TF)
qed

lemma setup_globals_fields:
  "readTF (setup_sketch busy now globals) = 1"
  "count (setup_sketch busy now globals) = 0"
  "readVOL (setup_sketch busy now globals) = 1"
  "readHarmonicRatio (setup_sketch busy now globals) = 1"
  "readPulseFraction (setup_sketch busy now globals) = 1"
  "count2 (setup_sketch busy now globals) = 0"
  "harmonic (setup_sketch busy now globals) = True"
  "TCC1_CC0 (setup_sketch busy now globals) = 499"
  by (simp_all add: setup_sketch_def globals_def)

lemma loop_body_first:
  "\<exists>s'. loop_body 0 \<lparr> micros = 0, A3 = 0, A4 = 0, A2 = 0, A0 = 0 \<rparr> (setup_sketch True 0 globals) = Inr s'"
  by (rule loop_body_total) (simp add: setup_globals_fields deadband_def noisefilter_def)

theorem loop_body_no_clamp_witness:
  "loop_body 6 \<lparr> micros = 0, A3 = 0, A4 = 0, A2 = 0, A0 = 0 \<rparr> (setup_sketch True 0 globals)
     = Inr (projr (loop_body 6 \<lparr> micros = 0, A3 = 0, A4 = 0, A2 = 0, A0 = 0 \<rparr> (setup_sketch True 0 globals)))
   \<and> TF (projr (loop_body 6 \<lparr> micros = 0, A3 = 0, A4 = 0, A2 = 0, A0 = 0 \<rparr> (setup_sketch True 0 globals))) = 37
   \<and> TCC2_PER (projr (loop_body 6 \<lparr> micros = 0, A3 = 0, A4 = 0, A2 = 0, A0 = 0 \<rparr> (setup_sketch True 0 globals))) = 62179"
proof -
  let ?r = "loop_body 6 \<lparr> micros = 0, A3 = 0, A4 = 0, A2 = 0, A0 = 0 \<rparr> (setup_sketch True 0 globals)"
  have "\<exists>s'. ?r = Inr s'"
    by (rule loop_body_total) (simp add: setup_globals_fields deadband_def noisefilter_def)
  then have h: "?r = Inr (projr ?r)" by auto
  note c = loop_body_no_clamp [OF h]
  have tf: "TF (projr ?r) = 37"
    using c by (simp add: setup_globals_fields deadband_def noisefilter_def)
  have "TCC2_PER (projr ?r) = (12000000 div (TF (projr ?r) mod 2 ^ 16) - 1) mod 2 ^ 16"
    using c by (rule conjunct2)
  then have per: "TCC2_PER (projr ?r) = 62179" by (simp only: tf) simp
  show ?thesis using h tf per by (intro conjI)
qed

text \<open>
  The claim as stated fails on the first pass after start-up with the pitch input at
  its low end: the filtered reading stays at its initial value 1, so \<open>TF = 1\<close>, below
  the documented lower bound 183, and the period register receives 6911, the wrapped
  tick count of the frequency 1.
\<close>

theorem loop_body_no_clamp_counterexample:
  "map_sum id TF (loop_body 0 \<lparr> micros = 0, A3 = 0, A4 = 0, A2 = 0, A0 = 0 \<rparr> (setup_sketch True 0 globals))
     = Inr 1
   \<and> 1 < Fmin
   \<and> map_sum id TCC2_PER (loop_body 0 \<lparr> micros = 0, A3 = 0, A4 = 0, A2 = 0, A0 = 0 \<rparr> (setup_sketch True 0 globals))
     = Inr 6911
   \<and> (6911 :: int) = (12000000 div 1 - 1) mod 2 ^ 16"
proof -
  let ?r = "loop_body 0 \<lparr> micros = 0, A3 = 0, A4 = 0, A2 = 0, A0 = 0 \<rparr> (setup_sketch True 0 globals)"
  obtain s' where h: "?r = Inr s'" using loop_body_first by blast
  let ?pre = "loop_params 0 (loop_read \<lparr> micros = 0, A3 = 0, A4 = 0, A2 = 0, A0 = 0 \<rparr>
                 (loop_lfo 0 (setup_sketch True 0 globals)))"
  have u: "UpdateTF (word_of_int (TF ?pre)) ?pre = Inr s'"
    using h by (simp add: loop_body_unfold)
  have pre: "TF ?pre = 1"
    using loop_body_TF [of 0 "\<lparr> micros = 0, A3 = 0, A4 = 0, A2 = 0, A0 = 0 \<rparr>" "setup_sketch True 0 globals"]
    by (simp add: setup_globals_fields deadband_def noisefilter_def)
  have tf: "TF s' = 1" using UpdateTF_frame(3) [OF u] pre by simp
  have per: "TCC2_PER s' = 6911"
    using UpdateTF_regs(2) [OF u] by (simp add: pre to_uint16_mod)
  show ?thesis using h tf per by (simp add: Fmin_def)
qed

section \<open>The phase state machine and the single writer of the carrier duty\<close>

lemma overflow_event_fields:
  "harmonic (overflow_event s) = (\<not> harmonic s)"
  "TCC1_CC0 (overflow_event s) = (if harmonic s then VOL_harmonic s else VOL s)"
  "TCC2_INTFLAG_OVF (overflow_event s) = False"
  by (simp_all add: overflow_event_def TCC2_0_Handler_def Let_def)

lemma compare_event_fields:
  "harmonic (compare_event s) = harmonic s"
  "TCC1_CC0 (compare_event s) = 0"
  by (simp_all add: compare_event_def TCC2_1_Handler_def)

lemma overflow_events_harmonic:
  "harmonic ((overflow_event ^^ N) s) = (if even N then harmonic s else \<not> harmonic s)"
  by (induction N) (simp_all add: overflow_event_fields)

lemma loop_body_frame:
  assumes "loop_body i inp s = Inr s'"
  shows "TCC1_CC0 s' = TCC1_CC0 s" "harmonic s' = harmonic s"
proof -
  let ?pre = "loop_params i (loop_read inp (loop_lfo (micros inp) s))"
  have u: "UpdateTF (word_of_int (TF ?pre)) ?pre = Inr s'"
    using assms by (simp add: loop_body_unfold)
  show "TCC1_CC0 s' = TCC1_CC0 s"
    using UpdateTF_frame(1) [OF u] by (simp add: loop_params_frame loop_read_frame loop_lfo_frame)
  show "harmonic s' = harmonic s"
    using UpdateTF_frame(2) [OF u] by (simp add: loop_params_frame loop_read_frame loop_lfo_frame)
qed

lemma onTimerSW_toggles:
  "up ((onTimerSW ^^ N) s) = (if even N then up s else \<not> up s)"
  by (induction N) (simp_all add: onTimerSW_def Let_def)

text \<open>
  C4. The phase is read off the flag \<open>harmonic\<close>: \<open>Fundamental\<close> while it is set
  (its initial value), \<open>Harmonic\<close> while it is clear. Every overflow event of the
  modulation timer toggles the phase, so after \<open>N\<close> overflow events from
  \<open>Fundamental\<close> the phase is \<open>Fundamental\<close> for even \<open>N\<close> and \<open>Harmonic\<close> for odd
  \<open>N\<close>. Nothing else toggles it: the overflow handler entered without the overflow flag
  changes nothing, and the compare event, \<open>setup()\<close>, \<open>UpdateTF\<close> and the loop body
  leave the phase as it is.
\<close>

theorem phase_toggles:
  "(phase_of s = Fundamental \<longrightarrow>
      phase_of ((overflow_event ^^ N) s) = (if even N then Fundamental else Harmonic))
   \<and> phase_of globals = Fundamental
   \<and> phase_of (overflow_event s) \<noteq> phase_of s
   \<and> (\<not> TCC2_INTFLAG_OVF s \<longrightarrow> TCC2_0_Handler s = s)
   \<and> phase_of (compare_event s) = phase_of s
   \<and> phase_of (TCC2_1_Handler s) = phase_of s
   \<and> phase_of (setup_sketch busy now s) = phase_of s
   \<and> (UpdateTF newTF s = Inr t \<longrightarrow> phase_of t = phase_of s)
   \<and> (loop_body i inp s = Inr u \<longrightarrow> phase_of u = phase_of s)"
proof -
  have a: "phase_of s = Fundamental \<longrightarrow>
      phase_of ((overflow_event ^^ N) s) = (if even N then Fundamental else Harmonic)"
    by (simp add: phase_of_def overflow_events_harmonic split: if_splits)
  have b: "phase_of globals = Fundamental" by (simp add: phase_of_def globals_def)
  have c: "phase_of (overflow_event s) \<noteq> phase_of s"
    by (simp add: phase_of_def overflow_event_fields)
  have d: "\<not> TCC2_INTFLAG_OVF s \<longrightarrow> TCC2_0_Handler s = s" by (simp add: TCC2_0_Handler_def)
  have e: "phase_of (compare_event s) = phase_of s"
    by (simp add: phase_of_def compare_event_fields)
  have f: "phase_of (TCC2_1_Handler s) = phase_of s"
    by (simp add: phase_of_def TCC2_1_Handler_def)
  have g: "phase_of (setup_sketch busy now s) = phase_of s"
    by (simp add: phase_of_def setup_sketch_def)
  have h: "UpdateTF newTF s = Inr t \<longrightarrow> phase_of t = phase_of s"
    using UpdateTF_frame(2) [of newTF s t] by (simp add: phase_of_def)
  have k: "loop_body i inp s = Inr u \<longrightarrow> phase_of u = phase_of s"
    using loop_body_frame(2) [of i inp s u] by (simp add: phase_of_def)
  show ?thesis using a b c d e f g h k by (intro conjI)
qed

theorem phase_toggles_witness:
  "phase_of (setup_sketch True 0 globals) = Fundamental
   \<and> phase_of ((overflow_event ^^ 3) (setup_sketch True 0 globals)) = Harmonic
   \<and> phase_of ((overflow_event ^^ 4) (setup_sketch True 0 globals)) = Fundamental
   \<and> \<not> TCC2_INTFLAG_OVF (setup_sketch True 0 globals)
   \<and> TCC2_0_Handler (setup_sketch True 0 globals) = setup_sketch True 0 globals
   \<and> UpdateTF 440 (setup_sketch True 0 globals) = Inr (projr (UpdateTF 440 (setup_sketch True 0 globals)))
   \<and> phase_of (projr (UpdateTF 440 (setup_sketch True 0 globals))) = Fundamental
   \<and> loop_body 0 \<lparr> micros = 0, A3 = 0, A4 = 0, A2 = 0, A0 = 0 \<rparr> (setup_sketch True 0 globals)
       = Inr (projr (loop_body 0 \<lparr> micros = 0, A3 = 0, A4 = 0, A2 = 0, A0 = 0 \<rparr> (setup_sketch True 0 globals)))
   \<and> phase_of (projr (loop_body 0 \<lparr> micros = 0, A3 = 0, A4 = 0, A2 = 0, A0 = 0 \<rparr>
                          (setup_sketch True 0 globals))) = Fundamental"
proof -
  let ?s = "setup_sketch True 0 globals"
  let ?inp = "\<lparr> micros = 0, A3 = 0, A4 = 0, A2 = 0, A0 = 0 \<rparr>"
  have p: "phase_of ?s = Fundamental"
    by (simp add: phase_of_def setup_globals_fields)
  have o: "\<not> TCC2_INTFLAG_OVF ?s" by (simp add: setup_sketch_def globals_def)
  have "\<exists>s'. UpdateTF 440 ?s = Inr s'" by (rule UpdateTF_total) simp
  then have a: "UpdateTF 440 ?s = Inr (projr (UpdateTF 440 ?s))" by auto
  have b: "loop_body 0 ?inp ?s = Inr (projr (loop_body 0 ?inp ?s))"
    using loop_body_first by auto
  show ?thesis
    using p o a b
      phase_toggles [where s = ?s and N = 3 and newTF = 440 and t = "projr (UpdateTF 440 ?s)"
        and i = 0 and inp = ?inp and u = "projr (loop_body 0 ?inp ?s)"]
      phase_toggles [where s = ?s and N = 4]
    by simp
qed

text \<open>
  C8. A pass of the loop body, and the call of \<open>UpdateTF\<close> in it, leaves the carrier
  compare register \<open>TCC1->CC[0]\<close> and the flag \<open>harmonic\<close> unchanged. The writers are
  the two event handlers: the overflow handler stores \<open>VOL_harmonic\<close> or \<open>VOL\<close> and
  toggles the flag, the compare handler stores 0.
\<close>

theorem loop_writes_neither_duty_nor_phase:
  "(loop_body i inp s = Inr s' \<longrightarrow> TCC1_CC0 s' = TCC1_CC0 s \<and> harmonic s' = harmonic s)
   \<and> (UpdateTF newTF s = Inr t \<longrightarrow> TCC1_CC0 t = TCC1_CC0 s \<and> harmonic t = harmonic s)
   \<and> TCC1_CC0 (overflow_event s) = (if harmonic s then VOL_harmonic s else VOL s)
   \<and> harmonic (overflow_event s) = (\<not> harmonic s)
   \<and> TCC1_CC0 (compare_event s) = 0"
  using loop_body_frame [of i inp s s'] UpdateTF_frame(1,2) [of newTF s t]
  by (simp add: overflow_event_fields compare_event_fields)

theorem loop_writes_neither_duty_nor_phase_witness:
  "loop_body 0 \<lparr> micros = 0, A3 = 0, A4 = 0, A2 = 0, A0 = 0 \<rparr> (compare_event (setup_sketch True 0 globals))
     = Inr (projr (loop_body 0 \<lparr> micros = 0, A3 = 0, A4 = 0, A2 = 0, A0 = 0 \<rparr>
                     (compare_event (setup_sketch True 0 globals))))
   \<and> TCC1_CC0 (projr (loop_body 0 \<lparr> micros = 0, A3 = 0, A4 = 0, A2 = 0, A0 = 0 \<rparr>
                     (compare_event (setup_sketch True 0 globals)))) = 0
   \<and> harmonic (projr (loop_body 0 \<lparr> micros = 0, A3 = 0, A4 = 0, A2 = 0, A0 = 0 \<rparr>
                     (compare_event (setup_sketch True 0 globals))))
   \<and> UpdateTF 440 (setup_sketch True 0 globals) = Inr (projr (UpdateTF 440 (setup_sketch True 0 globals)))
   \<and> TCC1_CC0 (projr (UpdateTF 440 (setup_sketch True 0 globals))) = 499
   \<and> harmonic (projr (UpdateTF 440 (setup_sketch True 0 globals)))"
proof -
  let ?g = "setup_sketch True 0 globals"
  let ?s = "compare_event ?g"
  let ?inp = "\<lparr> micros = 0, A3 = 0, A4 = 0, A2 = 0, A0 = 0 \<rparr>"
  let ?r = "loop_body 0 ?inp ?s"
  have f: "readTF ?s = 1" "count ?s = 0" "harmonic ?s" "TCC1_CC0 ?s = 0"
    by (simp_all add: compare_event_def TCC2_1_Handler_def setup_globals_fields)
  have "\<exists>s'. ?r = Inr s'"
    by (rule loop_body_total) (simp add: f deadband_def noisefilter_def)
  then have h: "?r = Inr (projr ?r)" by auto
  have "\<exists>s'. UpdateTF 440 ?g = Inr s'" by (rule UpdateTF_total) simp
  then have a: "UpdateTF 440 ?g = Inr (projr (UpdateTF 440 ?g))" by auto
  show ?thesis
    using h f a
      loop_writes_neither_duty_nor_phase [where i = 0 and inp = ?inp and s = ?s and s' = "projr ?r"]
      loop_writes_neither_duty_nor_phase [where newTF = 440 and s = ?g
        and t = "projr (UpdateTF 440 ?g)"]
    by (simp add: setup_globals_fields)
qed

section \<open>Casts and rounding at the values of the sketch\<close>

lemma fp_round_exact_div:
  "\<bar>m\<bar> < 2 ^ p \<Longrightarrow> fp_round p (of_int m / 2 ^ k) = of_int m / 2 ^ k"
  using fp_round_exact [of m p "- int k"] by (simp add: power_int_minus divide_inverse)

lemma to_float_int: "\<bar>m\<bar> < 16777216 \<Longrightarrow> to_float (of_int m) = of_int m"
  by (simp add: to_float_def fp_round_of_int)

lemma to_double_int: "\<bar>m\<bar> < 9007199254740992 \<Longrightarrow> to_double (of_int m) = of_int m"
  by (simp add: to_double_def fp_round_of_int)

lemma int_to_float_id: "\<bar>m\<bar> < 16777216 \<Longrightarrow> int_to_float m = of_int m"
  by (simp add: int_to_float_def to_float_int)

lemma to_float_int_div:
  "\<bar>m\<bar> < 16777216 \<Longrightarrow> to_float (of_int m / 2 ^ k) = of_int m / 2 ^ k"
  by (simp add: to_float_def fp_round_exact_div)

lemma to_double_int_div:
  "\<bar>m\<bar> < 9007199254740992 \<Longrightarrow> to_double (of_int m / 2 ^ k) = of_int m / 2 ^ k"
  by (simp add: to_double_def fp_round_exact_div)

lemma to_float_mono: "0 \<le> x \<Longrightarrow> x \<le> y \<Longrightarrow> to_float x \<le> to_float y"
  by (simp add: to_float_def fp_round_mono)

lemma to_double_mono: "0 \<le> x \<Longrightarrow> x \<le> y \<Longrightarrow> to_double x \<le> to_double y"
  by (simp add: to_double_def fp_round_mono)

lemma to_float_0 [simp]: "to_float 0 = 0"
  by (simp add: to_float_def fp_round_def)

lemma to_double_0 [simp]: "to_double 0 = 0"
  by (simp add: to_double_def fp_round_def)

lemma to_float_1 [simp]: "to_float 1 = 1"
  using to_float_int [of 1] by simp

lemma to_double_1 [simp]: "to_double 1 = 1"
  using to_double_int [of 1] by simp

lemma to_float_nonneg: "0 \<le> x \<Longrightarrow> 0 \<le> to_float x"
  using to_float_mono [of 0 x] by simp

lemma to_double_nonneg: "0 \<le> x \<Longrightarrow> 0 \<le> to_double x"
  using to_double_mono [of 0 x] by simp

lemma to_float_half: "to_float (x / 2) = to_float x / 2"
  using fp_round_half [of 24 x] by (simp add: to_float_def)

lemma to_double_half: "to_double (x / 2) = to_double x / 2"
  using fp_round_half [of 53 x] by (simp add: to_double_def)

lemma float_to_int_nonneg: "0 \<le> x \<Longrightarrow> float_to_int x = \<lfloor>x\<rfloor>"
  by (simp add: float_to_int_def)

lemma float_to_int_of_int [simp]: "float_to_int (of_int n) = n"
  by (simp add: float_to_int_def)

lemma float_to_int_numeral [simp]: "float_to_int (numeral n) = numeral n"
  using float_to_int_of_int [of "numeral n"] by simp

lemma floor_rat_div_numeral [simp]:
  "\<lfloor>numeral a / numeral b :: rat\<rfloor> = numeral a div numeral b"
  using floor_divide_of_int_eq [of "numeral a" "numeral b", where ?'a = rat] by simp

lemma floor_half: "\<lfloor>y / 2\<rfloor> = \<lfloor>y :: rat\<rfloor> div 2"
proof (rule floor_unique)
  define n where "n = \<lfloor>y\<rfloor>"
  have n: "of_int n \<le> y" "y < of_int n + 1"
    using floor_correct [of y] by (simp_all add: n_def)
  have "n = 2 * (n div 2) + n mod 2" by simp
  then have e: "(of_int n :: rat) = 2 * of_int (n div 2) + of_int (n mod 2)"
    by (metis of_int_add of_int_mult of_int_numeral)
  have "0 \<le> n mod 2" "n mod 2 \<le> 1" by simp_all
  then have r: "(0 :: rat) \<le> of_int (n mod 2)" "(of_int (n mod 2) :: rat) \<le> 1"
    by (simp_all only: of_int_0_le_iff of_int_le_1_iff)
  show "of_int (\<lfloor>y\<rfloor> div 2) \<le> y / 2" using n e r unfolding n_def [symmetric] by linarith
  show "y / 2 < of_int (\<lfloor>y\<rfloor> div 2) + 1" using n e r unfolding n_def [symmetric] by linarith
qed

lemma float_to_int_half: "0 \<le> y \<Longrightarrow> float_to_int (y / 2) = float_to_int y div 2"
  by (simp add: float_to_int_def floor_half)

lemma trunc_float_sandwich:
  assumes "0 \<le> x" and "x < 4194304"
  shows "\<lfloor>x\<rfloor> \<le> float_to_int (to_float x) \<and> float_to_int (to_float x) \<le> round x"
proof -
  define n where "n = \<lfloor>x\<rfloor>"
  define r where "r = round x"
  have n0: "0 \<le> n" using assms by (simp add: n_def)
  have nx: "of_int n \<le> x" by (simp add: n_def)
  have "of_int n < (4194304 :: rat)" using nx assms by linarith
  then have nb: "n < 4194304" by linarith
  have "to_float (of_int n) \<le> to_float x"
    using n0 nx by (intro to_float_mono) simp_all
  then have lo: "of_int n \<le> to_float x" using n0 nb by (simp add: to_float_int)
  then have pos: "0 \<le> to_float x" using n0 by (meson of_int_0_le_iff order_trans)
  have l: "n \<le> \<lfloor>to_float x\<rfloor>" using lo by (simp add: le_floor_iff)
  have rb: "0 \<le> r" "r \<le> n + 1"
    unfolding r_def n_def round_def using assms by (simp_all add: floor_le_iff) linarith+
  have xr: "x \<le> of_int (2 * r + 1) / 2 ^ 1"
    using of_int_round_ge [of x] by (simp add: r_def)
  have "to_float x \<le> to_float (of_int (2 * r + 1) / 2 ^ 1)"
    using assms(1) xr by (rule to_float_mono)
  also have "\<dots> = of_int (2 * r + 1) / 2 ^ 1"
    using rb nb by (intro to_float_int_div) simp
  finally have "to_float x < of_int (r + 1)" by simp
  then have "\<lfloor>to_float x\<rfloor> < r + 1" by (simp only: floor_less_iff)
  then have h: "\<lfloor>to_float x\<rfloor> \<le> r" by simp
  show ?thesis using l h pos by (simp add: float_to_int_nonneg n_def r_def)
qed

section \<open>Period ticks to compare ticks\<close>

lemma to_uint16_range: "0 \<le> to_uint16 x \<and> to_uint16 x < 65536"
  by (simp add: to_uint16_mod)

text \<open>
  C5 (amended). \<open>UpdateTF\<close> does not round the compare value: it multiplies the
  period just written by \<open>pulsefraction\<close> in single precision and casts the product to
  \<open>int\<close>, which discards the fraction. For every pulse fraction in \<open>[0, 1]\<close> the
  compare register therefore lies between the floor of the exact product and its
  rounded value, and between 0 and the period. With period 13635 and pulse fraction
  0.5 it is 6817.
\<close>

theorem UpdateTF_compare_truncates:
  assumes "UpdateTF newTF s = Inr s'" and "0 \<le> pulsefraction s" and "pulsefraction s \<le> 1"
  shows "TCC2_CC0 s' = float_to_int (to_float (of_int (TCC2_PER s') * pulsefraction s))
         \<and> \<lfloor>of_int (TCC2_PER s') * pulsefraction s\<rfloor> \<le> TCC2_CC0 s'
         \<and> TCC2_CC0 s' \<le> round (of_int (TCC2_PER s') * pulsefraction s)
         \<and> 0 \<le> TCC2_CC0 s' \<and> TCC2_CC0 s' \<le> TCC2_PER s'"
proof -
  define P where "P = TCC2_PER s'"
  define x where "x = of_int P * pulsefraction s"
  have P: "0 \<le> P" "P < 65536"
    using UpdateTF_regs(2) [OF assms(1)] to_uint16_range by (simp_all add: P_def)
  have Pr: "(0 :: rat) \<le> of_int P" "(of_int P :: rat) < 65536"
    using P by simp_all
  have cc: "TCC2_CC0 s' = float_to_int (to_float x)"
    using UpdateTF_regs(3) [OF assms(1)] P by (simp add: int_to_float_id P_def x_def)
  have x0: "0 \<le> x" using Pr assms(2) by (simp add: x_def)
  have xP: "x \<le> of_int P"
    using Pr(1) assms(3) by (simp add: x_def mult_left_le)
  then have xb: "x < 4194304" using Pr(2) by linarith
  note sw = trunc_float_sandwich [OF x0 xb]
  have "to_float x \<le> to_float (of_int P)" using x0 xP by (rule to_float_mono)
  then have "to_float x \<le> of_int P" using P by (simp add: to_float_int)
  then have "\<lfloor>to_float x\<rfloor> \<le> P" by (simp add: floor_le_iff)
  then have le: "float_to_int (to_float x) \<le> P"
    using to_float_nonneg [OF x0] by (simp add: float_to_int_nonneg)
  have ge: "0 \<le> float_to_int (to_float x)"
    using to_float_nonneg [OF x0] by (simp add: float_to_int_nonneg)
  show ?thesis using cc sw le ge by (simp add: x_def P_def)
qed

theorem UpdateTF_compare_truncates_witness:
  "UpdateTF 880 (globals\<lparr> pulsefraction := 1 / 4 \<rparr>)
     = Inr (projr (UpdateTF 880 (globals\<lparr> pulsefraction := 1 / 4 \<rparr>)))
   \<and> (0 :: rat) \<le> pulsefraction (globals\<lparr> pulsefraction := 1 / 4 \<rparr>)
   \<and> pulsefraction (globals\<lparr> pulsefraction := 1 / 4 \<rparr>) \<le> 1
   \<and> TCC2_PER (projr (UpdateTF 880 (globals\<lparr> pulsefraction := 1 / 4 \<rparr>))) = 13635
   \<and> TCC2_CC0 (projr (UpdateTF 880 (globals\<lparr> pulsefraction := 1 / 4 \<rparr>))) = 3408"
proof -
  let ?g = "globals\<lparr> pulsefraction := 1 / 4 \<rparr>"
  have "\<exists>s'. UpdateTF 880 ?g = Inr s'" by (rule UpdateTF_total) simp
  then have h: "UpdateTF 880 ?g = Inr (projr (UpdateTF 880 ?g))" by auto
  have a: "(0 :: rat) \<le> pulsefraction ?g" and b: "pulsefraction ?g \<le> 1" by simp_all
  have per: "TCC2_PER (projr (UpdateTF 880 ?g)) = 13635"
    using UpdateTF_regs(2) [OF h] by (simp add: to_uint16_mod)
  have "to_float (of_int 13635 / 2 ^ 2) = of_int 13635 / 2 ^ 2"
    by (rule to_float_int_div) simp
  then have f: "to_float (13635 / 4) = 13635 / 4" by simp
  have "TCC2_CC0 (projr (UpdateTF 880 ?g)) = 3408"
    using UpdateTF_compare_truncates [OF h a b] by (simp add: per f float_to_int_def)
  then show ?thesis using h per by simp
qed

text \<open>
  The claim as stated fails: with \<open>newTF = 880\<close> the period is 13635, and with the
  pulse fraction 0.5 the compare register receives 6817, while
  \<open>round (13635 \<times> 0.5) = 6818\<close>.
\<close>

theorem UpdateTF_compare_truncates_counterexample:
  "map_sum id TCC2_PER (UpdateTF 880 (globals\<lparr> pulsefraction := 1 / 2 \<rparr>)) = Inr 13635
   \<and> map_sum id TCC2_CC0 (UpdateTF 880 (globals\<lparr> pulsefraction := 1 / 2 \<rparr>)) = Inr 6817
   \<and> round (13635 * (1 / 2) :: rat) = 6818"
proof -
  have "to_float (of_int 13635 / 2 ^ 1) = of_int 13635 / 2 ^ 1"
    by (rule to_float_int_div) simp
  then have f: "to_float (13635 / 2) = 13635 / 2" by simp
  have i: "int_to_float 13635 = 13635" using int_to_float_id [of 13635] by simp
  show ?thesis
    by (simp add: UpdateTF_Inr to_uint16_mod i f float_to_int_def round_def)
qed

section \<open>Volume and harmonic volume\<close>

lemma deadband_adc: "adc new \<Longrightarrow> adc old \<Longrightarrow> adc (deadband new old)"
  by (simp add: deadband_def)

lemma loop_lfo_count2: "0 \<le> count2 s \<Longrightarrow> count2 s \<le> 4 \<Longrightarrow>
  0 \<le> count2 (loop_lfo now s) \<and> count2 (loop_lfo now s) \<le> 4"
  by (simp add: loop_lfo_def Let_def)

lemma state_ok_globals: "state_ok (setup_sketch busy now globals)"
  by (simp add: state_ok_def adc_def setup_globals_fields)

lemma state_ok_pre:
  assumes "state_ok s" and "inputs_ok inp"
  shows "state_ok (loop_read inp (loop_lfo now s))"
  using assms loop_lfo_count2 [of s now]
  by (simp add: state_ok_def inputs_ok_def loop_read_fields loop_read_frame loop_lfo_frame
      deadband_adc)

lemma unit_ratio:
  assumes "0 \<le> n" and "n \<le> m" and "0 < m"
  shows "0 \<le> to_double (of_int n / of_int m) \<and> to_double (of_int n / of_int m) \<le> 1"
proof -
  have a: "(0 :: rat) \<le> of_int n / of_int m" using assms by simp
  have b: "(of_int n :: rat) / of_int m \<le> 1" using assms by simp
  show ?thesis using to_double_nonneg [OF a] to_double_mono [OF a b] by simp
qed

lemma to_double_unit: "0 \<le> x \<Longrightarrow> x \<le> 1 \<Longrightarrow> 0 \<le> to_double x \<and> to_double x \<le> 1"
  using to_double_nonneg [of x] to_double_mono [of x 1] by simp

lemma to_float_unit: "0 \<le> x \<Longrightarrow> x \<le> 1 \<Longrightarrow> 0 \<le> to_float x \<and> to_float x \<le> 1"
  using to_float_nonneg [of x] to_float_mono [of x 1] by simp

lemma mult_unit: "(0 :: rat) \<le> x \<Longrightarrow> x \<le> 1 \<Longrightarrow> 0 \<le> y \<Longrightarrow> y \<le> 1 \<Longrightarrow> 0 \<le> x * y \<and> x * y \<le> 1"
  by (simp add: mult_le_one)

lemma harmonic_ratio_unit:
  assumes "adc (readHarmonicRatio s)" and "0 \<le> count2 s" and "count2 s \<le> 4"
  shows "0 \<le> harmonic_ratio (loop_params i s) \<and> harmonic_ratio (loop_params i s) \<le> 1"
proof -
  define d where "d = to_double (of_int (readHarmonicRatio s) / of_int 1023)"
  define c where "c = to_double (of_int (count2 s) / of_int 4)"
  have d: "0 \<le> d \<and> d \<le> 1" unfolding d_def using assms(1) by (intro unit_ratio) (simp_all add: adc_def)
  have c: "0 \<le> c \<and> c \<le> 1" unfolding c_def using assms(2,3) by (intro unit_ratio) simp_all
  have dc: "0 \<le> d * c \<and> d * c \<le> 1" using d c by (intro mult_unit) simp_all
  have "0 \<le> to_double (d * c) \<and> to_double (d * c) \<le> 1" using dc by (intro to_double_unit) simp_all
  then have "0 \<le> to_float (to_double (d * c)) \<and> to_float (to_double (d * c)) \<le> 1"
    by (intro to_float_unit) simp_all
  then show ?thesis by (simp add: loop_params_fields d_def c_def)
qed

lemma pulsefraction_unit:
  assumes "adc (readPulseFraction s)" and "LFOvalue s = 1 \<or> LFOvalue s = 1 / 2"
  shows "0 \<le> pulsefraction (loop_params i s) \<and> pulsefraction (loop_params i s) \<le> 1"
proof -
  define d where "d = to_double (of_int (readPulseFraction s) / of_int 1023)"
  have d: "0 \<le> d \<and> d \<le> 1" unfolding d_def using assms(1) by (intro unit_ratio) (simp_all add: adc_def)
  have l: "0 \<le> LFOvalue s \<and> LFOvalue s \<le> 1" using assms(2) by auto
  have dc: "0 \<le> d * LFOvalue s \<and> d * LFOvalue s \<le> 1" using d l by (intro mult_unit) simp_all
  have "0 \<le> to_double (d * LFOvalue s) \<and> to_double (d * LFOvalue s) \<le> 1"
    using dc by (intro to_double_unit) simp_all
  then have "0 \<le> to_float (to_double (d * LFOvalue s)) \<and> to_float (to_double (d * LFOvalue s)) \<le> 1"
    by (intro to_float_unit) simp_all
  then show ?thesis by (simp add: loop_params_fields d_def)
qed

lemma VOL_range:
  assumes "adc (readVOL s)" and "0 \<le> i" and "i < 1000"
  shows "0 \<le> VOL (loop_params i s) \<and> VOL (loop_params i s) \<le> 500"
proof -
  define d where "d = to_double (of_int (readVOL s) / of_int 1023)"
  define f where "f = to_float d"
  define k where "k = 500 - i div 2"
  have d: "0 \<le> d \<and> d \<le> 1" unfolding d_def using assms(1) by (intro unit_ratio) (simp_all add: adc_def)
  have f: "0 \<le> f \<and> f \<le> 1" unfolding f_def using d by (intro to_float_unit) simp_all
  have k: "1 \<le> k" "k \<le> 500" using assms(2,3) by (simp_all add: k_def)
  have kr: "(499 :: rat) - of_int (i div 2 - 1) = of_int k" by (simp add: k_def)
  have g: "to_double (of_int k) = of_int k" using k by (intro to_double_int) simp
  have kq: "(0 :: rat) \<le> of_int k" "(of_int k :: rat) \<le> 500" using k by simp_all
  have p0: "0 \<le> f * of_int k" using f kq by simp
  have "f * of_int k \<le> 1 * of_int k" using f kq by (intro mult_right_mono) simp_all
  then have p1: "f * of_int k \<le> of_int 500" using kq by simp
  have "to_double (f * of_int k) \<le> to_double (of_int 500)" using p0 p1 by (rule to_double_mono)
  then have u: "to_double (f * of_int k) \<le> 500" using to_double_int [of 500] by simp
  have l: "0 \<le> to_double (f * of_int k)" using p0 by (rule to_double_nonneg)
  have v: "VOL (loop_params i s) = float_to_int (to_double (f * of_int k))"
    by (simp only: loop_params_fields kr g f_def d_def of_int_numeral)
  have "\<lfloor>to_double (f * of_int k)\<rfloor> \<le> 500" using u by (simp add: floor_le_iff)
  then show ?thesis using l by (simp add: v float_to_int_nonneg)
qed

lemma VOL_harmonic_range:
  assumes "0 \<le> VOL (loop_params i s)" and "VOL (loop_params i s) \<le> 500"
    and "0 \<le> harmonic_ratio (loop_params i s)" and "harmonic_ratio (loop_params i s) \<le> 1"
  shows "0 \<le> VOL_harmonic (loop_params i s) \<and> VOL_harmonic (loop_params i s) \<le> VOL (loop_params i s)"
proof -
  define V where "V = VOL (loop_params i s)"
  define h where "h = harmonic_ratio (loop_params i s)"
  have V: "0 \<le> V" "V \<le> 500" using assms by (simp_all add: V_def)
  have h: "0 \<le> h" "h \<le> 1" using assms by (simp_all add: h_def)
  have Vr: "(0 :: rat) \<le> of_int V" using V by simp
  have vh: "VOL_harmonic (loop_params i s) = float_to_int (to_float (of_int V * h))"
    using V by (simp add: loop_params_fields(4) int_to_float_id V_def h_def)
  have x0: "0 \<le> of_int V * h" using Vr h by simp
  have xV: "of_int V * h \<le> of_int V" using Vr h by (simp add: mult_left_le)
  have "to_float (of_int V * h) \<le> to_float (of_int V)" using x0 xV by (rule to_float_mono)
  then have "to_float (of_int V * h) \<le> of_int V" using V by (simp add: to_float_int)
  then have "\<lfloor>to_float (of_int V * h)\<rfloor> \<le> V" by (simp add: floor_le_iff)
  then show ?thesis
    using to_float_nonneg [OF x0] by (simp add: vh float_to_int_nonneg V_def)
qed

lemma loop_body_pre:
  assumes "loop_body i inp s = Inr s'"
  shows "VOL s' = VOL (loop_params i (loop_read inp (loop_lfo (micros inp) s)))"
    "VOL_harmonic s' = VOL_harmonic (loop_params i (loop_read inp (loop_lfo (micros inp) s)))"
    "harmonic_ratio s' = harmonic_ratio (loop_params i (loop_read inp (loop_lfo (micros inp) s)))"
    "pulsefraction s' = pulsefraction (loop_params i (loop_read inp (loop_lfo (micros inp) s)))"
proof -
  let ?pre = "loop_params i (loop_read inp (loop_lfo (micros inp) s))"
  have u: "UpdateTF (word_of_int (TF ?pre)) ?pre = Inr s'"
    using assms by (simp add: loop_body_unfold)
  show "VOL s' = VOL ?pre" "VOL_harmonic s' = VOL_harmonic ?pre"
    "harmonic_ratio s' = harmonic_ratio ?pre" "pulsefraction s' = pulsefraction ?pre"
    using UpdateTF_frame [OF u] by simp_all
qed

lemma loop_body_volume_bounds:
  assumes "loop_body i inp s = Inr s'" and "state_ok s" and "inputs_ok inp"
    and "0 \<le> i" and "i < 1000"
  shows "0 \<le> VOL_harmonic s' \<and> VOL_harmonic s' \<le> VOL s' \<and> VOL s' \<le> 500
         \<and> 0 \<le> harmonic_ratio s' \<and> harmonic_ratio s' \<le> 1"
proof -
  let ?m = "loop_read inp (loop_lfo (micros inp) s)"
  have ok: "state_ok ?m" using assms(2,3) by (rule state_ok_pre)
  have v: "0 \<le> VOL (loop_params i ?m) \<and> VOL (loop_params i ?m) \<le> 500"
    using ok assms(4,5) by (intro VOL_range) (simp_all add: state_ok_def)
  have h: "0 \<le> harmonic_ratio (loop_params i ?m) \<and> harmonic_ratio (loop_params i ?m) \<le> 1"
    using ok by (intro harmonic_ratio_unit) (simp_all add: state_ok_def)
  have vh: "0 \<le> VOL_harmonic (loop_params i ?m)
            \<and> VOL_harmonic (loop_params i ?m) \<le> VOL (loop_params i ?m)"
    using v h by (intro VOL_harmonic_range) simp_all
  show ?thesis using v h vh by (simp add: loop_body_pre [OF assms(1)])
qed

text \<open>
  C6 (amended). Each pass of the loop body recomputes \<open>VOL_harmonic\<close> from the
  volume and the harmonic ratio of the same pass as \<open>(int)(VOL * harmonic_ratio)\<close>:
  the single-precision product with its fraction discarded, not rounded. It lies between
  the floor of the exact product and its rounded value.
\<close>

theorem loop_body_harmonic_volume:
  assumes "loop_body i inp s = Inr s'" and "state_ok s" and "inputs_ok inp"
    and "0 \<le> i" and "i < 1000"
  shows "VOL_harmonic s' = float_to_int (to_float (of_int (VOL s') * harmonic_ratio s'))
         \<and> \<lfloor>of_int (VOL s') * harmonic_ratio s'\<rfloor> \<le> VOL_harmonic s'
         \<and> VOL_harmonic s' \<le> round (of_int (VOL s') * harmonic_ratio s')"
proof -
  let ?pre = "loop_params i (loop_read inp (loop_lfo (micros inp) s))"
  note b = loop_body_volume_bounds [OF assms]
  have V: "0 \<le> VOL s'" "VOL s' \<le> 500" using b by simp_all
  have "VOL_harmonic ?pre = float_to_int (to_float (int_to_float (VOL ?pre) * harmonic_ratio ?pre))"
    by (rule loop_params_fields(4))
  then have e: "VOL_harmonic s' = float_to_int (to_float (of_int (VOL s') * harmonic_ratio s'))"
    using V by (simp add: loop_body_pre [OF assms(1), symmetric] int_to_float_id)
  have Vr: "(0 :: rat) \<le> of_int (VOL s')" "(of_int (VOL s') :: rat) \<le> 500" using V by simp_all
  have x0: "0 \<le> of_int (VOL s') * harmonic_ratio s'" using Vr b by simp
  have "of_int (VOL s') * harmonic_ratio s' \<le> of_int (VOL s')"
    using Vr b by (simp add: mult_left_le)
  then have xb: "of_int (VOL s') * harmonic_ratio s' < 4194304" using Vr by linarith
  show ?thesis using e trunc_float_sandwich [OF x0 xb] by simp
qed

lemma fp_values:
  "int_to_float 600000 = 600000"
  "to_float 600000 = 600000"
  "to_double 500 = 500"
  "to_double 499 = 499"
  "to_double 497 = 497"
  "to_double (3 / 4) = 3 / 4"
  "to_float (3 / 4) = 3 / 4"
  "int_to_float 497 = 497"
  "int_to_float 499 = 499"
  "to_float (1491 / 4) = 1491 / 4"
  "to_float (1497 / 4) = 1497 / 4"
  "to_double (1 / 2) = 1 / 2"
  "to_float (1 / 2) = 1 / 2"
  "int_to_float 13635 = 13635"
  "int_to_float 27271 = 27271"
  "to_float 13635 = 13635"
  "to_float 27271 = 27271"
  "to_float (13635 / 2) = 13635 / 2"
  "to_float (27271 / 2) = 27271 / 2"
  using int_to_float_id [of 600000] to_float_int [of 600000] to_double_int [of 500]
    to_double_int [of 499] to_double_int [of 497]
    to_double_int_div [of 3 2] to_float_int_div [of 3 2] int_to_float_id [of 497]
    int_to_float_id [of 499] to_float_int_div [of 1491 2] to_float_int_div [of 1497 2]
    to_double_int_div [of 1 1] to_float_int_div [of 1 1]
    int_to_float_id [of 13635] int_to_float_id [of 27271]
    to_float_int [of 13635] to_float_int [of 27271]
    to_float_int_div [of 13635 1] to_float_int_div [of 27271 1]
  by simp_all

text \<open>
  C3. The comment on \<open>VOL\<close> says it should range between 0 and 499, the top value of
  the carrier counter, and 499 is the only value the sketch ever writes to the period
  register of the carrier timer. On the first pass of the loop after start-up
  (\<open>i = 0\<close>) with the volume input at full scale, the sweep term
  \<open>499.0 - (i/2 - 1)\<close> is 500 and the pass leaves \<open>VOL = 500\<close>, whatever
  \<open>setup()\<close> did to the period register and whenever it ran. (The rest of the
  invariant, and the bound 500, are \<open>loop_body_volume_bounds\<close>.)
\<close>

theorem first_pass_volume_500:
  "map_sum id VOL
     (loop_body 0 \<lparr> micros = now', A3 = 0, A4 = 1023, A2 = 0, A0 = 440 \<rparr>
        (setup_sketch busy now globals))
     = Inr 500"
proof -
  let ?inp = "\<lparr> micros = now', A3 = 0, A4 = 1023, A2 = 0, A0 = 440 \<rparr>"
  let ?s = "setup_sketch busy now globals"
  have "\<exists>s'. loop_body 0 ?inp ?s = Inr s'"
    by (rule loop_body_total) (simp add: setup_globals_fields deadband_def noisefilter_def)
  then obtain s' where h: "loop_body 0 ?inp ?s = Inr s'" by blast
  have r: "readVOL (loop_read ?inp (loop_lfo now' ?s)) = 1023"
    by (simp add: loop_read_fields loop_lfo_frame setup_globals_fields deadband_def noisefilter_def)
  have "VOL s' = 500"
    by (simp add: loop_body_pre(1) [OF h] loop_params_fields(3) r fp_values float_to_int_def)
  then show ?thesis using h by simp
qed

lemma third_toggle_fields:
  "readHarmonicRatio third_toggle = 1023" "readVOL third_toggle = 1023"
  "readPulseFraction third_toggle = 1023" "readTF third_toggle = 1023"
  "count third_toggle = 0" "count2 third_toggle = 3" "time1 third_toggle = 2000000"
  "LFO third_toggle = False"
  by (simp_all add: third_toggle_def setup_sketch_def globals_def)

lemma full_scale_fields:
  "micros full_scale = 2002000" "A3 full_scale = 1023" "A4 full_scale = 1023"
  "A2 full_scale = 1023" "A0 full_scale = 1023"
  by (simp_all add: full_scale_def)

lemma third_toggle_ok: "state_ok third_toggle" "inputs_ok full_scale"
  by (simp_all add: state_ok_def inputs_ok_def adc_def third_toggle_fields full_scale_fields)

lemma third_toggle_lfo:
  "count2 (loop_lfo 2002000 third_toggle) = 3"
  "LFOvalue (loop_lfo 2002000 third_toggle) = 1 / 2"
  by (simp_all add: loop_lfo_def Let_def third_toggle_fields fp_values float_to_int_def)

lemma third_toggle_pass:
  assumes "loop_body i full_scale third_toggle = Inr s'"
  shows "harmonic_ratio s' = 3 / 4"
    "VOL s' = float_to_int (to_double (to_double (499 - of_int (i div 2 - 1))))"
    "pulsefraction s' = 1 / 2"
proof -
  let ?m = "loop_read full_scale (loop_lfo (micros full_scale) third_toggle)"
  have m: "readHarmonicRatio ?m = 1023" "readVOL ?m = 1023" "readPulseFraction ?m = 1023"
    "count2 ?m = 3" "LFOvalue ?m = 1 / 2"
    by (simp_all add: loop_read_fields loop_read_frame loop_lfo_frame third_toggle_fields
        full_scale_fields third_toggle_lfo deadband_def)
  show "harmonic_ratio s' = 3 / 4"
    by (simp add: loop_body_pre(3) [OF assms] loop_params_fields(2) m fp_values)
  show "VOL s' = float_to_int (to_double (to_double (499 - of_int (i div 2 - 1))))"
    by (simp add: loop_body_pre(1) [OF assms] loop_params_fields(3) m)
  show "pulsefraction s' = 1 / 2"
    by (simp add: loop_body_pre(4) [OF assms] loop_params_fields(5) m fp_values)
qed

lemma third_toggle_total: "0 \<le> i \<Longrightarrow> i < 1000 \<Longrightarrow> \<exists>s'. loop_body i full_scale third_toggle = Inr s'"
  by (rule loop_body_total)
     (simp add: third_toggle_fields full_scale_fields deadband_def)

theorem loop_body_harmonic_volume_witness:
  "loop_body 2 full_scale third_toggle = Inr (projr (loop_body 2 full_scale third_toggle))
   \<and> state_ok third_toggle \<and> inputs_ok full_scale \<and> (0 :: int) \<le> 2 \<and> (2 :: int) < 1000
   \<and> VOL (projr (loop_body 2 full_scale third_toggle)) = 499
   \<and> harmonic_ratio (projr (loop_body 2 full_scale third_toggle)) = 3 / 4
   \<and> VOL_harmonic (projr (loop_body 2 full_scale third_toggle)) = 374"
proof -
  let ?r = "loop_body 2 full_scale third_toggle"
  have "\<exists>s'. ?r = Inr s'" by (rule third_toggle_total) simp_all
  then have h: "?r = Inr (projr ?r)" by auto
  have v: "VOL (projr ?r) = 499" using third_toggle_pass(2) [OF h] by (simp add: fp_values)
  have hr: "harmonic_ratio (projr ?r) = 3 / 4" using third_toggle_pass(1) [OF h] .
  have "VOL_harmonic (projr ?r) = 374"
    using loop_body_harmonic_volume [OF h third_toggle_ok]
    by (simp add: v hr fp_values float_to_int_def)
  then show ?thesis using h v hr third_toggle_ok by simp
qed

text \<open>
  The claim as stated fails: in the pass \<open>i = 6\<close> from \<open>third_toggle\<close> the volume is
  497 and the harmonic ratio 0.75; the loop stores 372, while
  \<open>round (497 \<times> 0.75) = round 372.75 = 373\<close>.
\<close>

theorem loop_body_harmonic_volume_counterexample:
  "map_sum id VOL (loop_body 6 full_scale third_toggle) = Inr 497
   \<and> map_sum id harmonic_ratio (loop_body 6 full_scale third_toggle) = Inr (3 / 4)
   \<and> map_sum id VOL_harmonic (loop_body 6 full_scale third_toggle) = Inr 372
   \<and> round (497 * (3 / 4) :: rat) = 373"
proof -
  have "\<exists>s'. loop_body 6 full_scale third_toggle = Inr s'" by (rule third_toggle_total) simp_all
  then obtain s' where h: "loop_body 6 full_scale third_toggle = Inr s'" by blast
  have v: "VOL s' = 497" using third_toggle_pass(2) [OF h] by (simp add: fp_values)
  have hr: "harmonic_ratio s' = 3 / 4" using third_toggle_pass(1) [OF h] .
  let ?pre = "loop_params 6 (loop_read full_scale (loop_lfo (micros full_scale) third_toggle))"
  have "VOL_harmonic ?pre = float_to_int (to_float (int_to_float (VOL ?pre) * harmonic_ratio ?pre))"
    by (rule loop_params_fields(4))
  then have "VOL_harmonic s' = float_to_int (to_float (int_to_float (VOL s') * harmonic_ratio s'))"
    by (simp add: loop_body_pre [OF h, symmetric])
  then have vh: "VOL_harmonic s' = 372" by (simp add: v hr fp_values float_to_int_def)
  show ?thesis using h v hr vh by (simp add: round_def)
qed

section \<open>The low-frequency oscillator scale\<close>

lemma loop_params_keeps:
  "readHarmonicRatio (loop_params i s) = readHarmonicRatio s"
  "readVOL (loop_params i s) = readVOL s"
  "readPulseFraction (loop_params i s) = readPulseFraction s"
  "readTF (loop_params i s) = readTF s"
  "count2 (loop_params i s) = count2 s"
  by (simp_all add: loop_params_def Let_def)

lemma UpdateTF_keeps:
  assumes "UpdateTF newTF s = Inr s'"
  shows "readHarmonicRatio s' = readHarmonicRatio s" "readVOL s' = readVOL s"
    "readPulseFraction s' = readPulseFraction s" "readTF s' = readTF s" "count2 s' = count2 s"
  using assms by (auto simp: UpdateTF_def Let_def split: if_splits)

lemma state_ok_loop_body:
  assumes "loop_body i inp s = Inr s'" and "state_ok s" and "inputs_ok inp"
  shows "state_ok s'"
proof -
  let ?m = "loop_read inp (loop_lfo (micros inp) s)"
  have u: "UpdateTF (word_of_int (TF (loop_params i ?m))) (loop_params i ?m) = Inr s'"
    using assms(1) by (simp add: loop_body_unfold)
  have "state_ok ?m" using assms(2,3) by (rule state_ok_pre)
  then show ?thesis by (simp add: state_ok_def UpdateTF_keeps [OF u] loop_params_keeps)
qed

lemma loop_lfo_LFOvalue:
  "LFOvalue (loop_lfo now s) = (if LFO (loop_lfo now s) then 1 else 1 / 2)"
  by (simp add: loop_lfo_def Let_def)

lemma loop_params_LFO_half:
  "pulsefraction (loop_params i (s\<lparr> LFOvalue := 1 / 2 \<rparr>))
     = pulsefraction (loop_params i (s\<lparr> LFOvalue := 1 \<rparr>)) / 2"
  by (simp add: loop_params_fields to_double_half to_float_half)

lemma compare_half:
  assumes "0 \<le> P" and "P < 65536" and "0 \<le> f"
  shows "float_to_int (to_float (int_to_float P * (f / 2)))
           = float_to_int (to_float (int_to_float P * f)) div 2"
proof -
  have i: "int_to_float P = of_int P" using assms by (intro int_to_float_id) simp
  have "0 \<le> of_int P * f" using assms by simp
  then have "0 \<le> to_float (of_int P * f)" by (rule to_float_nonneg)
  then have h: "float_to_int (to_float (of_int P * f) / 2)
                  = float_to_int (to_float (of_int P * f)) div 2"
    by (rule float_to_int_half)
  have "of_int P * (f / 2) = of_int P * f / 2" by simp
  then have "to_float (of_int P * (f / 2)) = to_float (of_int P * f) / 2"
    by (simp only: to_float_half)
  then show ?thesis by (simp only: i h)
qed

text \<open>
  C9. For a fixed \<open>newTF\<close>, hence a fixed period, and any non-negative filtered
  pulse-fraction reading, the pass with \<open>LFOvalue = 0.5\<close> stores exactly half the
  pulse fraction of the pass with \<open>LFOvalue = 1.0\<close>, and the compare register, an
  integer, receives half of the other compare value (\<open>TCC2_CC0 a div 2\<close>, so 13635
  for 27271). \<open>LFOvalue\<close> is 1.0 or 0.5 after the oscillator step.
\<close>

theorem lfo_half_scale:
  assumes "0 \<le> readPulseFraction s"
    and "UpdateTF newTF (loop_params i (s\<lparr> LFOvalue := 1 \<rparr>)) = Inr a"
    and "UpdateTF newTF (loop_params i (s\<lparr> LFOvalue := 1 / 2 \<rparr>)) = Inr b"
  shows "pulsefraction b = pulsefraction a / 2
         \<and> TCC2_PER b = TCC2_PER a
         \<and> TCC2_CC0 b = TCC2_CC0 a div 2
         \<and> LFOvalue (loop_lfo now s) = (if LFO (loop_lfo now s) then 1 else 1 / 2)"
proof -
  let ?A = "loop_params i (s\<lparr> LFOvalue := 1 \<rparr>)"
  let ?B = "loop_params i (s\<lparr> LFOvalue := 1 / 2 \<rparr>)"
  have pf: "pulsefraction ?B = pulsefraction ?A / 2" by (rule loop_params_LFO_half)
  have "(0 :: rat) \<le> of_int (readPulseFraction s) / 1023" using assms(1) by simp
  then have "0 \<le> to_double (of_int (readPulseFraction s) / 1023)" by (rule to_double_nonneg)
  then have "0 \<le> to_double (to_double (of_int (readPulseFraction s) / 1023) * 1)"
    by (intro to_double_nonneg) simp
  then have "0 \<le> to_float (to_double (to_double (of_int (readPulseFraction s) / 1023) * 1))"
    by (rule to_float_nonneg)
  then have f0: "0 \<le> pulsefraction ?A" by (simp add: loop_params_fields)
  have per: "TCC2_PER b = TCC2_PER a"
    using UpdateTF_regs(2) [OF assms(2)] UpdateTF_regs(2) [OF assms(3)] by simp
  have P: "0 \<le> TCC2_PER a" "TCC2_PER a < 65536"
    using UpdateTF_regs(2) [OF assms(2)] to_uint16_range by simp_all
  have "TCC2_CC0 b = float_to_int (to_float (int_to_float (TCC2_PER a) * (pulsefraction ?A / 2)))"
    using UpdateTF_regs(3) [OF assms(3)] by (simp only: per pf)
  also have "\<dots> = float_to_int (to_float (int_to_float (TCC2_PER a) * pulsefraction ?A)) div 2"
    using P f0 by (rule compare_half)
  also have "\<dots> = TCC2_CC0 a div 2"
    using UpdateTF_regs(3) [OF assms(2)] by simp
  finally have cc: "TCC2_CC0 b = TCC2_CC0 a div 2" .
  have "pulsefraction b = pulsefraction a / 2"
    using pf UpdateTF_frame(7) [OF assms(2)] UpdateTF_frame(7) [OF assms(3)] by simp
  then show ?thesis using per cc loop_lfo_LFOvalue by simp
qed

lemma third_toggle_pulsefraction:
  "pulsefraction (loop_params i (third_toggle\<lparr> LFOvalue := 1 \<rparr>)) = 1"
  "pulsefraction (loop_params i (third_toggle\<lparr> LFOvalue := 1 / 2 \<rparr>)) = 1 / 2"
  by (simp_all add: loop_params_fields third_toggle_fields fp_values)

theorem lfo_half_scale_witness:
  "(0 :: int) \<le> readPulseFraction third_toggle
   \<and> UpdateTF 440 (loop_params 0 (third_toggle\<lparr> LFOvalue := 1 \<rparr>))
       = Inr (projr (UpdateTF 440 (loop_params 0 (third_toggle\<lparr> LFOvalue := 1 \<rparr>))))
   \<and> UpdateTF 440 (loop_params 0 (third_toggle\<lparr> LFOvalue := 1 / 2 \<rparr>))
       = Inr (projr (UpdateTF 440 (loop_params 0 (third_toggle\<lparr> LFOvalue := 1 / 2 \<rparr>))))
   \<and> TCC2_CC0 (projr (UpdateTF 440 (loop_params 0 (third_toggle\<lparr> LFOvalue := 1 \<rparr>)))) = 27271
   \<and> TCC2_CC0 (projr (UpdateTF 440 (loop_params 0 (third_toggle\<lparr> LFOvalue := 1 / 2 \<rparr>)))) = 13635"
proof -
  let ?A = "loop_params 0 (third_toggle\<lparr> LFOvalue := 1 \<rparr>)"
  let ?B = "loop_params 0 (third_toggle\<lparr> LFOvalue := 1 / 2 \<rparr>)"
  have r: "(0 :: int) \<le> readPulseFraction third_toggle" by (simp add: third_toggle_fields)
  have "\<exists>s'. UpdateTF 440 ?A = Inr s'" by (rule UpdateTF_total) simp
  then have a: "UpdateTF 440 ?A = Inr (projr (UpdateTF 440 ?A))" by auto
  have "\<exists>s'. UpdateTF 440 ?B = Inr s'" by (rule UpdateTF_total) simp
  then have b: "UpdateTF 440 ?B = Inr (projr (UpdateTF 440 ?B))" by auto
  have pa: "TCC2_PER (projr (UpdateTF 440 ?A)) = 27271"
    using UpdateTF_regs(2) [OF a] by (simp add: to_uint16_mod)
  have ca: "TCC2_CC0 (projr (UpdateTF 440 ?A)) = 27271"
    using UpdateTF_regs(3) [OF a] by (simp add: pa third_toggle_pulsefraction fp_values)
  have "TCC2_CC0 (projr (UpdateTF 440 ?B)) = TCC2_CC0 (projr (UpdateTF 440 ?A)) div 2"
    using lfo_half_scale [OF r a b] by simp
  then have cb: "TCC2_CC0 (projr (UpdateTF 440 ?B)) = 13635" by (simp add: ca)
  show ?thesis using r a b ca cb by (intro conjI)
qed

end
